theory Spec2Isabelle
  imports Complex_Main "HOL-Library.List_Lexorder" "HOL-Library.Product_Lexorder"
    "HOL-Library.Multiset" "HOL-Library.Code_Target_Numeral"
begin

section \<open>Python text\<close>

text \<open>
  A Python \<open>str\<close> is a sequence of Unicode code points; it is modelled as a list of
  natural numbers. \<open>str\<close> turns an ASCII literal into such a list. The characters
  outside ASCII that the sources name are given by their code points.
\<close>

type_synonym pystr = "nat list"

definition str :: "string \<Rightarrow> pystr" where
  "str = map of_char"

definition pound_sign :: nat where
  "pound_sign = 163"

definition euro_sign :: nat where
  "euro_sign = 8364"

text \<open>
  The Unicode character database of the Python runtime is not part of the repository.
  The classification of ASCII characters is written out; for the code points from 128 on,
  the database is a parameter of the model: the decimal digit value of a code point
  (category Nd), whether it is alphanumeric, and \<open>str.lower\<close> on a string that is not
  pure ASCII (lowering is not character-wise there).
\<close>

record unicode_db =
  uni_decimal :: "nat \<Rightarrow> nat option"
  uni_alnum :: "nat \<Rightarrow> bool"
  uni_lower :: "pystr \<Rightarrow> pystr"

definition ascii_db :: unicode_db where
  "ascii_db = \<lparr>uni_decimal = (\<lambda>c. None), uni_alnum = (\<lambda>c. False), uni_lower = (\<lambda>s. s)\<rparr>"

definition is_ascii_digit :: "nat \<Rightarrow> bool" where
  "is_ascii_digit c = (48 \<le> c \<and> c \<le> 57)"

text \<open>\<open>str.isspace\<close> of one character, which is also the regular expression class \<open>\s\<close>.\<close>

definition is_space :: "nat \<Rightarrow> bool" where
  "is_space c = ((9 \<le> c \<and> c \<le> 13) \<or> (28 \<le> c \<and> c \<le> 32) \<or> c = 133 \<or> c = 160
     \<or> c = 5760 \<or> (8192 \<le> c \<and> c \<le> 8202) \<or> c = 8232 \<or> c = 8233 \<or> c = 8239
     \<or> c = 8287 \<or> c = 12288)"

text \<open>The C locale's \<open>isspace\<close>, which \<open>float\<close> and \<open>int\<close> strip after their transformation to ASCII.\<close>

definition is_c_space :: "nat \<Rightarrow> bool" where
  "is_c_space c = ((9 \<le> c \<and> c \<le> 13) \<or> c = 32)"

text \<open>
  The digit value of a decimal digit, from 0 to 9. What the database says is read only where
  it can be true: a value out of this range is no digit, and neither is a whitespace
  character.
\<close>

definition decimal_digit :: "unicode_db \<Rightarrow> nat \<Rightarrow> nat option" where
  "decimal_digit U c =
     (if c < 128 then (if is_ascii_digit c then Some (c - 48) else None)
      else if is_space c then None
      else (case uni_decimal U c of None \<Rightarrow> None | Some d \<Rightarrow> if d < 10 then Some d else None))"

text \<open>The regular expression class \<open>\d\<close> of a \<open>str\<close> pattern: the decimal digits of Unicode.\<close>

definition is_decimal :: "unicode_db \<Rightarrow> nat \<Rightarrow> bool" where
  "is_decimal U c = (decimal_digit U c \<noteq> None)"

text \<open>The class \<open>\w\<close>, which decides \<open>\b\<close>: alphanumeric or the underscore.\<close>

definition is_word :: "unicode_db \<Rightarrow> nat \<Rightarrow> bool" where
  "is_word U c =
     (if c < 128 then is_ascii_digit c \<or> (65 \<le> c \<and> c \<le> 90) \<or> (97 \<le> c \<and> c \<le> 122) \<or> c = 95
      else uni_alnum U c \<or> decimal_digit U c \<noteq> None)"

definition ascii_lower :: "nat \<Rightarrow> nat" where
  "ascii_lower c = (if 65 \<le> c \<and> c \<le> 90 then c + 32 else c)"

definition py_lower :: "unicode_db \<Rightarrow> pystr \<Rightarrow> pystr" where
  "py_lower U s = (if list_all (\<lambda>c. c < 128) s then map ascii_lower s else uni_lower U s)"

definition py_strip :: "pystr \<Rightarrow> pystr" where
  "py_strip s = rev (dropWhile is_space (rev (dropWhile is_space s)))"

definition c_strip :: "pystr \<Rightarrow> pystr" where
  "c_strip s = rev (dropWhile is_c_space (rev (dropWhile is_c_space s)))"

definition starts_with :: "pystr \<Rightarrow> pystr \<Rightarrow> bool" where
  "starts_with p s = (take (length p) s = p)"

section \<open>Exceptions\<close>

datatype exn = ValueError | TypeError | AttributeError | AssertionError
  | InvalidOperation | DivisionByZero | Overflow

section \<open>Regular expressions\<close>

text \<open>
  Python's \<open>re\<close> is a backtracking matcher. Each pattern of the sources is written as the
  search it performs: \<open>re_search\<close> tries the start positions from the left, and at one
  position the candidates of every greedy quantifier are tried from the longest down.
\<close>

fun first_some :: "('a \<Rightarrow> 'b option) \<Rightarrow> 'a list \<Rightarrow> 'b option" where
  "first_some f [] = None"
| "first_some f (x # xs) = (case f x of Some y \<Rightarrow> Some y | None \<Rightarrow> first_some f xs)"

definition down_from :: "nat \<Rightarrow> nat \<Rightarrow> nat list" where
  "down_from n lo = rev [lo..<Suc n]"

definition run_length :: "(nat \<Rightarrow> bool) \<Rightarrow> pystr \<Rightarrow> nat" where
  "run_length P s = length (takeWhile P s)"

definition re_search :: "(nat \<Rightarrow> 'b option) \<Rightarrow> pystr \<Rightarrow> 'b option" where
  "re_search m s = first_some m [0..<Suc (length s)]"

text \<open>\<open>\b\<close> at position \<open>i\<close>: exactly one of the two neighbours is a word character.\<close>

definition word_boundary :: "unicode_db \<Rightarrow> pystr \<Rightarrow> nat \<Rightarrow> bool" where
  "word_boundary U s i =
     ((0 < i \<and> i \<le> length s \<and> is_word U (s ! (i - 1))) \<noteq> (i < length s \<and> is_word U (s ! i)))"

text \<open>
  \<open>re.sub(r'(?:USD|CAD|EUR|GBP|\$|\<pounds>|\<euro>|,)', '', s)\<close> of \<open>parse_price\<close>: at each position the
  alternatives are tried in order; a match is deleted and the scan goes on behind it.
\<close>

definition is_currency_code :: "pystr \<Rightarrow> bool" where
  "is_currency_code w = (w = str ''USD'' \<or> w = str ''CAD'' \<or> w = str ''EUR'' \<or> w = str ''GBP'')"

definition is_currency_char :: "nat \<Rightarrow> bool" where
  "is_currency_char c = (c = 36 \<or> c = pound_sign \<or> c = euro_sign \<or> c = 44)"

fun sub_currency :: "pystr \<Rightarrow> pystr" where
  "sub_currency (a # b # c # s) =
     (if is_currency_code [a, b, c] then sub_currency s
      else if is_currency_char a then sub_currency (b # c # s)
      else a # sub_currency (b # c # s))"
| "sub_currency (a # s) = (if is_currency_char a then sub_currency s else a # sub_currency s)"
| "sub_currency [] = []"

text \<open>
  \<open>re.sub(r'\s.*', '', s)\<close>: a match starts at a whitespace character and runs to the end of
  the line (\<open>.\<close> does not match a newline); the scan goes on behind it.
\<close>

function sub_space_rest :: "pystr \<Rightarrow> pystr" where
  "sub_space_rest [] = []"
| "sub_space_rest (c # s) =
     (if is_space c then sub_space_rest (dropWhile (\<lambda>d. d \<noteq> 10) s) else c # sub_space_rest s)"
  by pat_completeness auto
termination
  by (relation "measure length") (auto simp: length_dropWhile_le less_Suc_eq_le)

text \<open>
  The two patterns of \<open>parse_capacity_tb\<close>, \<open>(\d{lo,hi})\s*(?:xb|xbyte)\b\<close> with the unit
  written short or long: the number of digits and the length of the whitespace run are
  tried from the longest down, the short unit before the long one. The result is group 1.
\<close>

definition capacity_match_at ::
  "unicode_db \<Rightarrow> nat \<Rightarrow> nat \<Rightarrow> pystr \<Rightarrow> pystr \<Rightarrow> pystr \<Rightarrow> nat \<Rightarrow> pystr option" where
  "capacity_match_at U lo hi short long s i =
     first_some (\<lambda>k.
        first_some (\<lambda>m.
           let p = i + k + m in
           if (starts_with short (drop p s) \<and> word_boundary U s (p + length short))
              \<or> (starts_with long (drop p s) \<and> word_boundary U s (p + length long))
           then Some (take k (drop i s)) else None)
          (down_from (run_length is_space (drop (i + k) s)) 0))
       (down_from (min hi (run_length (is_decimal U) (drop i s))) lo)"

section \<open>Python numbers read from text\<close>

text \<open>
  A \<open>float\<close> read from text is kept as the exact decimal value of the numeral, which stands
  for the double nearest to it (or for an infinity, or a NaN); the rounding to binary
  floating point is outside the model.
\<close>

datatype pyfloat = Float rat | FloatInf bool | FloatNaN

definition pow10 :: "int \<Rightarrow> rat" where
  "pow10 e = (if 0 \<le> e then 10 ^ nat e else 1 / 10 ^ nat (- e))"

definition digits_val :: "pystr \<Rightarrow> nat" where
  "digits_val ds = foldl (\<lambda>a c. 10 * a + (c - 48)) 0 ds"

text \<open>
  \<open>float\<close> and \<open>int\<close> first turn the Unicode whitespace and decimal digits from code
  point 127 on into ASCII; any other such character makes the text invalid.
\<close>

fun to_ascii_numeric :: "unicode_db \<Rightarrow> pystr \<Rightarrow> pystr option" where
  "to_ascii_numeric U [] = Some []"
| "to_ascii_numeric U (c # s) =
     (case (if c < 127 then Some c else if is_space c then Some 32
            else map_option (\<lambda>d. 48 + d) (decimal_digit U c)) of
        None \<Rightarrow> None
      | Some a \<Rightarrow> map_option ((#) a) (to_ascii_numeric U s))"

text \<open>An underscore is accepted only between two digits.\<close>

fun underscores_ok :: "nat \<Rightarrow> pystr \<Rightarrow> bool" where
  "underscores_ok prev [] = (prev \<noteq> 95)"
| "underscores_ok prev (c # s) =
     ((if c = 95 then is_ascii_digit prev else if prev = 95 then is_ascii_digit c else True)
      \<and> underscores_ok c s)"

definition split_sign :: "pystr \<Rightarrow> bool \<times> pystr" where
  "split_sign s =
     (case s of [] \<Rightarrow> (False, [])
      | c # r \<Rightarrow> if c = 43 then (False, r) else if c = 45 then (True, r) else (False, s))"

definition signed :: "bool \<Rightarrow> nat \<Rightarrow> int" where
  "signed neg n = (if neg then - int n else int n)"

definition parse_exponent :: "pystr \<Rightarrow> int option" where
  "parse_exponent r =
     (case r of [] \<Rightarrow> Some 0
      | c # t \<Rightarrow>
          if c = 101 \<or> c = 69 then
            (let (neg, d) = split_sign t
             in if d \<noteq> [] \<and> list_all is_ascii_digit d then Some (signed neg (digits_val d)) else None)
          else None)"

text \<open>
  The numeral grammar shared by \<open>float\<close> and \<open>Decimal\<close>: digits, an optional point with
  more digits, at least one digit in all, and an optional exponent. The result is the
  coefficient and the power of ten.
\<close>

definition parse_number :: "pystr \<Rightarrow> (nat \<times> int) option" where
  "parse_number r =
     (let ip = takeWhile is_ascii_digit r; r1 = dropWhile is_ascii_digit r;
          (fp, r2) = (case r1 of [] \<Rightarrow> ([], [])
                      | c # t \<Rightarrow> if c = 46 then (takeWhile is_ascii_digit t, dropWhile is_ascii_digit t)
                                 else ([], r1))
      in if ip @ fp = [] then None
         else map_option (\<lambda>e. (digits_val (ip @ fp), e - int (length fp))) (parse_exponent r2))"

definition float_of_ascii :: "pystr \<Rightarrow> pyfloat option" where
  "float_of_ascii s =
     (let (neg, r) = split_sign s; l = map ascii_lower r
      in if l = str ''inf'' \<or> l = str ''infinity'' then Some (FloatInf neg)
         else if l = str ''nan'' then Some FloatNaN
         else map_option (\<lambda>(c, e). Float (of_int (signed neg c) * pow10 e)) (parse_number r))"

definition py_float :: "unicode_db \<Rightarrow> pystr \<Rightarrow> exn + pyfloat" where
  "py_float U s =
     (case to_ascii_numeric U s of
        None \<Rightarrow> Inl ValueError
      | Some a \<Rightarrow>
          if \<not> underscores_ok 0 a then Inl ValueError
          else (case float_of_ascii (c_strip (filter (\<lambda>c. c \<noteq> 95) a)) of
                  None \<Rightarrow> Inl ValueError
                | Some x \<Rightarrow> Inr x))"

text \<open>
  \<open>int\<close> of a string in base ten: an optional sign and digits. Python 3.11 refuses more than
  4300 digits.
\<close>

definition py_int :: "unicode_db \<Rightarrow> pystr \<Rightarrow> exn + int" where
  "py_int U s =
     (case to_ascii_numeric U s of
        None \<Rightarrow> Inl ValueError
      | Some a \<Rightarrow>
          if \<not> underscores_ok 0 a then Inl ValueError
          else (let (neg, d) = split_sign (c_strip (filter (\<lambda>c. c \<noteq> 95) a))
                in if d \<noteq> [] \<and> list_all is_ascii_digit d \<and> length d \<le> 4300
                   then Inr (signed neg (digits_val d)) else Inl ValueError))"

section \<open>The normalizers of hdd_price_scraper.py\<close>

text \<open>
  \<open>parse_price\<close>: \<open>None\<close> and the empty string return \<open>None\<close> before anything else; the
  body runs under \<open>try\<close>, and \<open>ValueError\<close> and \<open>TypeError\<close> are caught and turned into
  \<open>None\<close>. The result \<open>Inr None\<close> is the return value \<open>None\<close>, \<open>Inl e\<close> an exception that
  leaves the function.
\<close>

definition parse_price_body :: "unicode_db \<Rightarrow> pystr \<Rightarrow> exn + pyfloat" where
  "parse_price_body U price_str =
     (let s1 = sub_currency price_str;
          s2 = takeWhile (\<lambda>c. c \<noteq> 45) s1;
          s3 = sub_space_rest s2
      in py_float U (py_strip s3))"

definition parse_price :: "unicode_db \<Rightarrow> pystr option \<Rightarrow> exn + pyfloat option" where
  "parse_price U price_str =
     (case price_str of
        None \<Rightarrow> Inr None
      | Some s \<Rightarrow>
          if s = [] then Inr None
          else (case parse_price_body U s of
                  Inr x \<Rightarrow> Inr (Some x)
                | Inl ValueError \<Rightarrow> Inr None
                | Inl TypeError \<Rightarrow> Inr None
                | Inl e \<Rightarrow> Inl e))"

text \<open>
  \<open>parse_capacity_tb\<close> returns terabytes: the \<open>int\<close> that stands before \<open>tb\<close>, or for
  gigabytes the float \<open>round(n / 1000.0, 2)\<close>, which is kept as the \<open>n\<close> it is computed from.
\<close>

datatype capacity = Terabytes int | GigabytesRounded int

definition parse_capacity_tb :: "unicode_db \<Rightarrow> pystr option \<Rightarrow> exn + capacity option" where
  "parse_capacity_tb U title =
     (case title of
        None \<Rightarrow> Inr None
      | Some t \<Rightarrow>
          if t = [] then Inr None
          else (let title_lower = py_lower U t
                in case re_search (capacity_match_at U 1 3 (str ''tb'') (str ''terabyte'') title_lower)
                          title_lower of
                     Some g \<Rightarrow> (case py_int U g of Inl e \<Rightarrow> Inl e | Inr n \<Rightarrow> Inr (Some (Terabytes n)))
                   | None \<Rightarrow>
                       (case re_search (capacity_match_at U 3 5 (str ''gb'') (str ''gigabyte'') title_lower)
                              title_lower of
                          Some g \<Rightarrow> (case py_int U g of Inl e \<Rightarrow> Inl e
                                      | Inr n \<Rightarrow> Inr (Some (GigabytesRounded n)))
                        | None \<Rightarrow> Inr None)))"

section \<open>Python decimals\<close>

text \<open>
  crawl.py computes with \<open>decimal.Decimal\<close> under the default context: 28 significant
  digits, rounding half to even, exponents from -999999 to 999999, and the traps
  \<open>InvalidOperation\<close>, \<open>DivisionByZero\<close> and \<open>Overflow\<close>. A finite decimal is kept as
  its numeric value, which is what comparison and arithmetic depend on; the sign of a zero
  and the payload of a NaN are not kept.
\<close>

datatype decimal = Num rat | DecInf bool | DecNaN | DecSNaN

text \<open>The number of decimal digits of a natural number.\<close>

fun ndigits :: "nat \<Rightarrow> nat" where
  "ndigits n = (if n < 10 then 1 else Suc (ndigits (n div 10)))"

declare ndigits.simps [simp del]

text \<open>
  The adjusted exponent of a number other than zero: the exponent of its leading digit, the
  \<open>e\<close> with \<open>10^e \<le> |q| < 10^(e+1)\<close>.
\<close>

definition adjusted :: "rat \<Rightarrow> int" where
  "adjusted q =
     (let (a, b) = quotient_of q;
          e0 = int (ndigits (nat \<bar>a\<bar>)) - int (ndigits (nat b))
      in if pow10 e0 \<le> \<bar>q\<bar> then e0 else e0 - 1)"

definition round_half_even :: "rat \<Rightarrow> int" where
  "round_half_even x =
     (let f = \<lfloor>x\<rfloor>; d = x - of_int f
      in if d < 1 / 2 then f else if 1 / 2 < d then f + 1 else if even f then f else f + 1)"

definition prec :: int where
  "prec = 28"

definition emax :: int where
  "emax = 999999"

definition etiny :: int where
  "etiny = - 999999 - (prec - 1)"

text \<open>
  The context's rounding of an exact result: to 28 significant digits, and not below the
  exponent \<open>etiny\<close>; a rounded result beyond the largest exponent raises \<open>Overflow\<close>.
\<close>

definition ctx_round :: "rat \<Rightarrow> exn + decimal" where
  "ctx_round q =
     (if q = 0 then Inr (Num 0)
      else (let e = max (adjusted q - (prec - 1)) etiny;
                r = of_int (round_half_even (q / pow10 e)) * pow10 e
            in if r \<noteq> 0 \<and> emax < adjusted r then Inl Overflow else Inr (Num r)))"

definition is_nan :: "decimal \<Rightarrow> bool" where
  "is_nan d = (d = DecNaN \<or> d = DecSNaN)"

fun dec_mul :: "decimal \<Rightarrow> decimal \<Rightarrow> exn + decimal" where
  "dec_mul DecSNaN y = Inl InvalidOperation"
| "dec_mul x DecSNaN = Inl InvalidOperation"
| "dec_mul DecNaN y = Inr DecNaN"
| "dec_mul x DecNaN = Inr DecNaN"
| "dec_mul (DecInf m) (DecInf n) = Inr (DecInf (m \<noteq> n))"
| "dec_mul (DecInf m) (Num b) = (if b = 0 then Inl InvalidOperation else Inr (DecInf (m \<noteq> (b < 0))))"
| "dec_mul (Num a) (DecInf n) = (if a = 0 then Inl InvalidOperation else Inr (DecInf ((a < 0) \<noteq> n)))"
| "dec_mul (Num a) (Num b) = ctx_round (a * b)"

fun dec_div :: "decimal \<Rightarrow> decimal \<Rightarrow> exn + decimal" where
  "dec_div DecSNaN y = Inl InvalidOperation"
| "dec_div x DecSNaN = Inl InvalidOperation"
| "dec_div DecNaN y = Inr DecNaN"
| "dec_div x DecNaN = Inr DecNaN"
| "dec_div (DecInf m) (DecInf n) = Inl InvalidOperation"
| "dec_div (DecInf m) (Num b) = Inr (DecInf (m \<noteq> (b < 0)))"
| "dec_div (Num a) (DecInf n) = Inr (Num 0)"
| "dec_div (Num a) (Num b) =
     (if b = 0 then (if a = 0 then Inl InvalidOperation else Inl DivisionByZero)
      else ctx_round (a / b))"

text \<open>
  \<open>Decimal(s)\<close> of a string: whitespace is stripped from both ends, every underscore is
  dropped, Unicode digits count as their ASCII digits, and the rest must be a numeral, an
  infinity or a NaN. The conversion is exact, so an exponent that the largest context of
  the library cannot hold is refused as well. Every refusal is \<open>InvalidOperation\<close>.
\<close>

fun decimal_ascii :: "unicode_db \<Rightarrow> pystr \<Rightarrow> pystr option" where
  "decimal_ascii U [] = Some []"
| "decimal_ascii U (c # s) =
     (if c = 95 then decimal_ascii U s
      else (case (if 0 < c \<and> c \<le> 127 then Some c else if is_space c then Some 32
                  else map_option (\<lambda>d. 48 + d) (decimal_digit U c)) of
              None \<Rightarrow> None
            | Some a \<Rightarrow> map_option ((#) a) (decimal_ascii U s)))"

definition max_emax :: int where
  "max_emax = 999999999999999999"

definition max_etiny :: int where
  "max_etiny = - 1999999999999999997"

definition exact_in_max_context :: "nat \<Rightarrow> int \<Rightarrow> bool" where
  "exact_in_max_context c e =
     (max_etiny \<le> e \<and> (if c = 0 then e else e + int (ndigits c) - 1) \<le> max_emax)"

definition decimal_of_ascii :: "pystr \<Rightarrow> decimal option" where
  "decimal_of_ascii s =
     (let (neg, r) = split_sign s; l = map ascii_lower r
      in if l = str ''inf'' \<or> l = str ''infinity'' then Some (DecInf neg)
         else if starts_with (str ''nan'') l \<and> list_all is_ascii_digit (drop 3 l) then Some DecNaN
         else if starts_with (str ''snan'') l \<and> list_all is_ascii_digit (drop 4 l) then Some DecSNaN
         else (case parse_number r of
                 None \<Rightarrow> None
               | Some (c, e) \<Rightarrow>
                   if exact_in_max_context c e then Some (Num (of_int (signed neg c) * pow10 e))
                   else None))"

definition py_decimal :: "unicode_db \<Rightarrow> pystr \<Rightarrow> exn + decimal" where
  "py_decimal U s =
     (case decimal_ascii U (py_strip s) of
        None \<Rightarrow> Inl InvalidOperation
      | Some a \<Rightarrow> (case decimal_of_ascii a of None \<Rightarrow> Inl InvalidOperation | Some d \<Rightarrow> Inr d))"

section \<open>crawl.py: the capacity in a title\<close>

text \<open>
  \<open>re_size1 = \b([0-9.]+) ?([TGtg])[Bb]\b(?!/s)\<close> and \<open>re_size2\<close>, the same pattern with
  \<open>[Bb]?\<close>: \<open>strict\<close> tells them apart. The number is tried from its longest extent down,
  the optional space and the optional \<open>B\<close> taken first and given up second. The result is
  group 1 and the character of group 2.
\<close>

definition is_size_char :: "nat \<Rightarrow> bool" where
  "is_size_char c = (is_ascii_digit c \<or> c = 46)"

definition is_unit_char :: "nat \<Rightarrow> bool" where
  "is_unit_char c = (c = 84 \<or> c = 71 \<or> c = 116 \<or> c = 103)"

definition is_b_char :: "nat \<Rightarrow> bool" where
  "is_b_char c = (c = 66 \<or> c = 98)"

definition size_match_at :: "unicode_db \<Rightarrow> bool \<Rightarrow> pystr \<Rightarrow> nat \<Rightarrow> (pystr \<times> nat) option" where
  "size_match_at U strict s i =
     (if \<not> word_boundary U s i then None
      else first_some (\<lambda>k.
             first_some (\<lambda>sp.
                let p = i + k + sp in
                if p < length s \<and> is_unit_char (s ! p) then
                  first_some (\<lambda>b.
                     let q = p + 1 + b in
                     if word_boundary U s q \<and> \<not> starts_with (str ''/s'') (drop q s)
                     then Some (take k (drop i s), s ! p) else None)
                   (if p + 1 < length s \<and> is_b_char (s ! (p + 1))
                    then (if strict then [1] else [1, 0])
                    else (if strict then [] else [0]))
                else None)
               (if i + k < length s \<and> s ! (i + k) = 32 then [1, 0] else [0]))
            (down_from (run_length is_size_char (drop i s)) 1))"

definition size_search :: "unicode_db \<Rightarrow> pystr \<Rightarrow> (pystr \<times> nat) option" where
  "size_search U title =
     (case re_search (size_match_at U True title) title of
        Some m \<Rightarrow> Some m
      | None \<Rightarrow> re_search (size_match_at U False title) title)"

text \<open>
  Lines 238 to 246 of \<open>parse_page\<close>: no match skips the item (\<open>Inr None\<close>); otherwise the
  result is the size text and \<open>size_gb\<close>, which is multiplied by 1000 when group 2 is the
  capital \<open>T\<close>.
\<close>

definition parse_size :: "unicode_db \<Rightarrow> pystr \<Rightarrow> exn + (pystr \<times> decimal) option" where
  "parse_size U title =
     (case size_search U title of
        None \<Rightarrow> Inr None
      | Some (g1, g2) \<Rightarrow>
          (case py_decimal U g1 of
             Inl e \<Rightarrow> Inl e
           | Inr d \<Rightarrow>
               if g2 = 84 then
                 (case dec_mul d (Num 1000) of
                    Inl e \<Rightarrow> Inl e
                  | Inr d' \<Rightarrow> Inr (Some (g1 @ [g2, 66], d')))
               else Inr (Some (g1 @ [g2, 66], d))))"

text \<open>
  Lines 231 to 237: the price text without its commas is handed to \<open>Decimal\<close>, and
  \<open>InvalidOperation\<close> is printed and raised again.
\<close>

definition parse_price_text :: "unicode_db \<Rightarrow> pystr \<Rightarrow> exn + decimal" where
  "parse_price_text U price_str = py_decimal U (filter (\<lambda>c. c \<noteq> 44) price_str)"

section \<open>crawl.py: the page\<close>

text \<open>
  The tree that \<open>lxml.html.parse\<close> returns: an element has a tag, attributes, a text, children
  and a tail; a comment has a text and a tail and no tag that a path could name.
\<close>

datatype node =
    Element (node_tag: pystr) (attrib: "(pystr \<times> pystr) list") (node_text: "pystr option")
      (children: "node list") (node_tail: "pystr option")
  | Comment (node_text: "pystr option") (node_tail: "pystr option")

fun child_nodes :: "node \<Rightarrow> node list" where
  "child_nodes (Element t a x cs y) = cs"
| "child_nodes (Comment x y) = []"

fun get_attr :: "node \<Rightarrow> pystr \<Rightarrow> pystr option" where
  "get_attr (Element t a x cs y) k = map_of a k"
| "get_attr (Comment x y) k = None"

fun has_tag :: "pystr \<Rightarrow> node \<Rightarrow> bool" where
  "has_tag t (Element t' a x cs y) = (t' = t)"
| "has_tag t (Comment x y) = False"

text \<open>The descendants of a node in document order, the node itself left out.\<close>

fun descendants :: "node \<Rightarrow> node list" where
  "descendants (Element t a x cs y) = concat (map (\<lambda>c. c # descendants c) cs)"
| "descendants (Comment x y) = []"

definition or_empty :: "pystr option \<Rightarrow> pystr" where
  "or_empty x = (case x of None \<Rightarrow> [] | Some s \<Rightarrow> s)"

text \<open>\<open>text_content()\<close>: the text of the element and of its descendants, comments left out.\<close>

fun text_content :: "node \<Rightarrow> pystr" where
  "text_content (Element t a x cs y) =
     or_empty x @ concat (map (\<lambda>c. text_content c @ or_empty (node_tail c)) cs)"
| "text_content (Comment x y) = []"

text \<open>\<open>.//tag[@class="cls"]\<close>: the descendants with this tag and exactly this class.\<close>

definition find_all :: "node \<Rightarrow> string \<Rightarrow> string \<Rightarrow> node list" where
  "find_all item t cls =
     filter (\<lambda>n. has_tag (str t) n \<and> get_attr n (str ''class'') = Some (str cls)) (descendants item)"

definition first_of :: "'a list \<Rightarrow> 'a option" where
  "first_of xs = (case xs of [] \<Rightarrow> None | x # _ \<Rightarrow> Some x)"

definition find_class :: "node \<Rightarrow> string \<Rightarrow> string \<Rightarrow> node option" where
  "find_class item t cls = first_of (find_all item t cls)"

fun with_next :: "node list \<Rightarrow> (node \<times> node option) list" where
  "with_next [] = []"
| "with_next [x] = [(x, None)]"
| "with_next (x # y # r) = (x, Some y) # with_next (y # r)"

text \<open>
  \<open>.//tag[@class="cls"]/child\<close>: the first child with that tag under such an element, given
  together with the node that follows it (\<open>getnext()\<close>).
\<close>

definition find_child :: "node \<Rightarrow> string \<Rightarrow> string \<Rightarrow> string \<Rightarrow> (node \<times> node option) option" where
  "find_child item t cls child =
     first_of (concat (map (\<lambda>n. filter (\<lambda>(c, nx). has_tag (str child) c) (with_next (child_nodes n)))
                          (find_all item t cls)))"

definition hidden_price :: "node \<Rightarrow> bool" where
  "hidden_price item =
     (case find_child item ''li'' ''price-map'' ''a'' of
        None \<Rightarrow> False
      | Some (price_action, nx) \<Rightarrow>
          node_text price_action = Some (str ''See price in cart'')
          \<or> node_text price_action = Some (str ''See Price after Checkout''))"

text \<open>\<open>out_of_stock\<close>: the assertion fails when no current price element is found at all.\<close>

definition cur_price :: "node \<Rightarrow> node option" where
  "cur_price item =
     (case find_class item ''li'' ''price-current'' of
        None \<Rightarrow> find_class item ''li'' ''price-current ''
      | Some n \<Rightarrow> Some n)"

definition out_of_stock :: "node \<Rightarrow> exn + bool" where
  "out_of_stock item =
     (let promo = find_class item ''p'' ''item-promo'';
          btn_message = find_class item ''span'' ''btn btn-message ''
      in case cur_price item of
           None \<Rightarrow> Inl AssertionError
         | Some cp \<Rightarrow>
             Inr ((length (child_nodes cp) = 0
                   \<and> (case promo of None \<Rightarrow> False
                       | Some p \<Rightarrow> text_content p = str ''OUT OF STOCK''))
                  \<or> (case btn_message of None \<Rightarrow> False
                      | Some b \<Rightarrow> node_text b = Some (str ''Out Of Stock''))))"

record item =
  price :: decimal
  title :: pystr
  size_text :: pystr
  size_gb :: decimal
  number :: pystr
  price_per_tb :: decimal

text \<open>\<open>str.find\<close>: the first position of \<open>sub\<close> in \<open>s\<close>, or -1.\<close>

definition str_find :: "pystr \<Rightarrow> pystr \<Rightarrow> int" where
  "str_find s sub =
     (case first_some (\<lambda>i. if starts_with sub (drop i s) then Some i else None) [0..<Suc (length s)] of
        None \<Rightarrow> - 1
      | Some i \<Rightarrow> int i)"

text \<open>\<open>href[href.find("Item=") + 5:]\<close>, where a missing \<open>Item=\<close> gives the slice from 4.\<close>

definition item_number_of :: "pystr \<Rightarrow> pystr" where
  "item_number_of href = drop (nat (str_find href (str ''Item='') + 5)) href"

text \<open>
  The body of the loop of \<open>parse_page\<close> for one item container: the item is skipped
  (\<open>continue\<close>), appended, or an exception leaves \<open>parse_page\<close>.
\<close>

datatype outcome = Skip | Emit item | Raise exn

definition price_per_tb_of :: "decimal \<Rightarrow> decimal \<Rightarrow> exn + decimal" where
  "price_per_tb_of p s = (case dec_div p s of Inl e \<Rightarrow> Inl e | Inr q \<Rightarrow> dec_mul q (Num 1000))"

definition emit_item :: "unicode_db \<Rightarrow> pystr \<Rightarrow> pystr \<Rightarrow> node \<Rightarrow> node option \<Rightarrow> outcome" where
  "emit_item U item_number ttl dollars cents =
     (case (node_text dollars, (case cents of None \<Rightarrow> Some [] | Some c \<Rightarrow> node_text c)) of
        (Some d, Some c) \<Rightarrow>
          (case parse_price_text U (d @ c) of
             Inl e \<Rightarrow> Raise e
           | Inr p \<Rightarrow>
               (case parse_size U ttl of
                  Inl e \<Rightarrow> Raise e
                | Inr None \<Rightarrow> Skip
                | Inr (Some (sz, gb)) \<Rightarrow>
                    (case price_per_tb_of p gb of
                       Inl e \<Rightarrow> Raise e
                     | Inr ppt \<Rightarrow>
                         Emit \<lparr>price = p, title = ttl, size_text = sz, size_gb = gb,
                               number = item_number, price_per_tb = ppt\<rparr>)))
      | _ \<Rightarrow> Raise TypeError)"

definition parse_item :: "unicode_db \<Rightarrow> node \<Rightarrow> outcome" where
  "parse_item U item =
     (case find_class item ''a'' ''item-title'' of
        None \<Rightarrow> Raise AttributeError
      | Some title_link \<Rightarrow>
          (case get_attr title_link (str ''href'') of
             None \<Rightarrow> Raise AttributeError
           | Some href \<Rightarrow>
               (let item_number = item_number_of href;
                    ttl = text_content title_link
                in if item_number = [] then Raise AssertionError
                   else if hidden_price item then Skip
                   else (case out_of_stock item of
                           Inl e \<Rightarrow> Raise e
                         | Inr True \<Rightarrow> Skip
                         | Inr False \<Rightarrow>
                             (case find_child item ''li'' ''price-current'' ''strong'' of
                                Some (dollars, cents) \<Rightarrow>
                                  if node_text dollars = Some (str ''COMING SOON'') then Skip
                                  else emit_item U item_number ttl dollars cents
                              | None \<Rightarrow>
                                  (case find_child item ''li'' ''price-current '' ''strong'' of
                                     Some (dollars, cents) \<Rightarrow> emit_item U item_number ttl dollars cents
                                   | None \<Rightarrow>
                                       (case find_class item ''span'' ''price-was-data'' of
                                          Some price_was \<Rightarrow> Skip
                                        | None \<Rightarrow> Raise AttributeError)))))))"

fun parse_items :: "unicode_db \<Rightarrow> node list \<Rightarrow> exn + item list" where
  "parse_items U [] = Inr []"
| "parse_items U (x # xs) =
     (case parse_item U x of
        Raise e \<Rightarrow> Inl e
      | Skip \<Rightarrow> parse_items U xs
      | Emit it \<Rightarrow> (case parse_items U xs of Inl e \<Rightarrow> Inl e | Inr its \<Rightarrow> Inr (it # its)))"

text \<open>\<open>//div[contains(@class, 'item-container')]\<close> over the whole document.\<close>

definition contains :: "pystr \<Rightarrow> pystr \<Rightarrow> bool" where
  "contains s sub = (0 \<le> str_find s sub)"

definition item_containers :: "node \<Rightarrow> node list" where
  "item_containers doc =
     filter (\<lambda>n. has_tag (str ''div'') n
                 \<and> (case get_attr n (str ''class'') of None \<Rightarrow> False
                     | Some c \<Rightarrow> contains c (str ''item-container'')))
       (doc # descendants doc)"

definition parse_page :: "unicode_db \<Rightarrow> node \<Rightarrow> exn + item list" where
  "parse_page U doc = parse_items U (item_containers doc)"

section \<open>crawl.py: one category of group_items\<close>

text \<open>
  The loop over the items of all pages of a category keeps an item when its number was not
  seen before; a duplicate is logged and skipped.
\<close>

fun dedupe :: "pystr set \<Rightarrow> item list \<Rightarrow> item list" where
  "dedupe seen [] = []"
| "dedupe seen (i # rest) =
     (if number i \<in> seen then dedupe seen rest else i # dedupe (insert (number i) seen) rest)"

text \<open>
  \<open>items.sort(key=lambda i: i["price_per_tb"])\<close>: a stable sort. Comparing a NaN raises
  \<open>InvalidOperation\<close>, and with two or more items every key is compared. The finite
  decimals and the two infinities are ordered through \<open>decimal_key\<close>.
\<close>

fun decimal_key :: "decimal \<Rightarrow> int \<times> rat" where
  "decimal_key (Num q) = (0, q)"
| "decimal_key (DecInf neg) = (if neg then (- 1, 0) else (1, 0))"
| "decimal_key DecNaN = (0, 0)"
| "decimal_key DecSNaN = (0, 0)"

text \<open>The order of the decimals that are numbers or infinities.\<close>

definition dec_le :: "decimal \<Rightarrow> decimal \<Rightarrow> bool" where
  "dec_le a b = (decimal_key a \<le> decimal_key b)"

definition sort_by_price_per_tb :: "item list \<Rightarrow> exn + item list" where
  "sort_by_price_per_tb items =
     (if 2 \<le> length items \<and> list_ex (\<lambda>i. is_nan (price_per_tb i)) items then Inl InvalidOperation
      else Inr (sort_key (\<lambda>i. decimal_key (price_per_tb i)) items))"

definition dedupe_and_rank :: "item list \<Rightarrow> exn + item list" where
  "dedupe_and_rank items = sort_by_price_per_tb (dedupe {} items)"

fun parse_pages :: "unicode_db \<Rightarrow> node list \<Rightarrow> exn + item list" where
  "parse_pages U [] = Inr []"
| "parse_pages U (p # ps) =
     (case parse_page U p of
        Inl e \<Rightarrow> Inl e
      | Inr its \<Rightarrow> (case parse_pages U ps of Inl e \<Rightarrow> Inl e | Inr rest \<Rightarrow> Inr (its @ rest)))"

definition group_category :: "unicode_db \<Rightarrow> node list \<Rightarrow> exn + item list" where
  "group_category U pages =
     (case parse_pages U pages of Inl e \<Rightarrow> Inl e | Inr items \<Rightarrow> dedupe_and_rank items)"

section \<open>hdd_price_scraper.py: the ranked table\<close>

text \<open>
  Lines 540 to 546. The floats other than NaN are linearly ordered and stand as the type
  parameter \<open>'f\<close>; \<open>None\<close> is a missing value (\<open>None\<close> or NaN). The quotient rounded to two
  places is computed in binary floating point, which is outside the model: it is the
  parameter \<open>round2_div\<close>, and \<open>fzero\<close> is the float zero. A row is a dictionary that one
  of the scrapers appended; its texts are always present.
\<close>

record 'f float_ops =
  fzero :: 'f
  round2_div :: "'f \<Rightarrow> 'f \<Rightarrow> 'f option"

record 'f row =
  Retailer :: pystr
  Title :: pystr
  URL :: pystr
  Capacity_TB :: "'f option"
  Price :: "'f option"

text \<open>The column \<open>Price per TB ($)\<close> that \<open>df.apply\<close> computes.\<close>

definition price_per_tb_column :: "'f::linorder float_ops \<Rightarrow> 'f row \<Rightarrow> 'f option" where
  "price_per_tb_column F r =
     (case (Capacity_TB r, Price r) of
        (Some c, Some p) \<Rightarrow> if fzero F < c then round2_div F p c else None
      | _ \<Rightarrow> None)"

text \<open>
  \<open>dropna\<close> removes the rows without a price per terabyte, and \<open>sort_values\<close> orders the rest
  by that column and then by the retailer, ascending and stable. The result pairs every
  row with its value of the column.
\<close>

definition df_sorted :: "'f::linorder float_ops \<Rightarrow> 'f row list \<Rightarrow> ('f \<times> 'f row) list" where
  "df_sorted F rows =
     sort_key (\<lambda>(v, r). (v, Retailer r))
       (List.map_filter (\<lambda>r. map_option (\<lambda>v. (v, r)) (price_per_tb_column F r)) rows)"

section \<open>Example inputs\<close>

text \<open>
  Two listings of one page and a later copy of the first with another price; and three rows
  of the table, one of them without a capacity.
\<close>

definition listing_a :: item where
  "listing_a = \<lparr>price = Num 79.99, title = str ''Acme 4TB HDD'', size_text = str ''4TB'',
     size_gb = Num 4000, number = str ''A'', price_per_tb = Num 19.9975\<rparr>"

definition listing_b :: item where
  "listing_b = \<lparr>price = Num 49.99, title = str ''Acme 2TB HDD'', size_text = str ''2TB'',
     size_gb = Num 2000, number = str ''B'', price_per_tb = Num 24.995\<rparr>"

definition listing_a_again :: item where
  "listing_a_again = \<lparr>price = Num 14.99, title = str ''Acme 4TB HDD'', size_text = str ''4TB'',
     size_gb = Num 4000, number = str ''A'', price_per_tb = Num 3.7475\<rparr>"

definition exact_ops :: "rat float_ops" where
  "exact_ops = \<lparr>fzero = 0, round2_div = (\<lambda>p c. Some (p / c))\<rparr>"

definition row_newegg :: "rat row" where
  "row_newegg = \<lparr>Retailer = str ''Newegg'', Title = str ''Acme 4TB HDD'', URL = str ''https://n/1'',
     Capacity_TB = Some 4, Price = Some 100\<rparr>"

definition row_amazon :: "rat row" where
  "row_amazon = \<lparr>Retailer = str ''Amazon'', Title = str ''Acme 2TB HDD'', URL = str ''https://a/1'',
     Capacity_TB = Some 2, Price = Some 50\<rparr>"

definition row_incomplete :: "rat row" where
  "row_incomplete = \<lparr>Retailer = str ''Amazon'', Title = str ''Acme HDD'', URL = str ''https://a/2'',
     Capacity_TB = None, Price = Some 10\<rparr>"

text \<open>Item containers as crawl.py reads them: a title link, and a current price in two parts.\<close>

definition item_container :: "string \<Rightarrow> string \<Rightarrow> node list \<Rightarrow> node" where
  "item_container href ttl rest =
     Element (str ''div'') [(str ''class'', str ''item-container'')] None
       (Element (str ''a'') [(str ''class'', str ''item-title''), (str ''href'', str href)]
          (Some (str ttl)) [] None # rest) None"

definition price_current :: "string \<Rightarrow> string \<Rightarrow> node" where
  "price_current dollars cents =
     Element (str ''li'') [(str ''class'', str ''price-current'')] None
       [Element (str ''strong'') [] (Some (str dollars)) [] None,
        Element (str ''sup'') [] (Some (str cents)) [] None] None"

definition page_of :: "node list \<Rightarrow> node" where
  "page_of items = Element (str ''html'') [] None [Element (str ''body'') [] None items None] None"

definition item_3tb :: node where
  "item_3tb = item_container ''https://www.newegg.com/Product/Product.aspx?Item=N82E16822234345''
     ''Acme 3TB HDD'' [price_current ''79'' ''.99'']"

definition item_no_price :: node where
  "item_no_price = item_container ''https://www.newegg.com/Product/Product.aspx?Item=N82E16822236971''
     ''Acme 2TB HDD'' [price_current ''N/A'' '''']"

text \<open>
  Items that are out of stock: one with an empty current price element, one with no such
  element at all. And two items whose link has no \<open>Item=\<close>.
\<close>

definition promo_out_of_stock :: node where
  "promo_out_of_stock =
     Element (str ''p'') [(str ''class'', str ''item-promo'')] (Some (str ''OUT OF STOCK'')) [] None"

definition item_out_of_stock :: node where
  "item_out_of_stock = item_container ''https://www.newegg.com/Product/Product.aspx?Item=N82E16822149396''
     ''Acme 6TB HDD''
     [Element (str ''li'') [(str ''class'', str ''price-current'')] None [] None, promo_out_of_stock]"

definition item_no_price_element :: node where
  "item_no_price_element = item_container ''https://www.newegg.com/Product/Product.aspx?Item=N82E16822149396''
     ''Acme 6TB HDD'' [promo_out_of_stock]"

definition item_button_out_of_stock :: node where
  "item_button_out_of_stock = item_container ''https://www.newegg.com/Product/Product.aspx?Item=N82E16822149396''
     ''Acme 6TB HDD''
     [price_current ''119'' ''.99'',
      Element (str ''span'') [(str ''class'', str ''btn btn-message '')] (Some (str ''Out Of Stock'')) [] None]"

definition item_short_link :: node where
  "item_short_link = item_container ''#'' ''Acme 8TB HDD'' [price_current ''129'' ''.99'']"

definition item_path_link :: node where
  "item_path_link = item_container ''https://www.newegg.com/p/N82E16822234345'' ''Acme 4TB HDD''
     [price_current ''79'' ''.99'']"

text \<open>What \<open>parse_page\<close> makes of \<open>item_path_link\<close>: the number is the link from its fifth character on.\<close>

definition listing_path_link :: item where
  "listing_path_link = \<lparr>price = Num (7999 / 100), title = str ''Acme 4TB HDD'', size_text = str ''4TB'',
     size_gb = Num 4000, number = str ''s://www.newegg.com/p/N82E16822234345'',
     price_per_tb = Num (7999 / 400)\<rparr>"

text \<open>What \<open>parse_page\<close> makes of \<open>item_3tb\<close>: 79.99 for 3000 gigabytes.\<close>

definition listing_3tb :: item where
  "listing_3tb = \<lparr>price = Num (7999 / 100), title = str ''Acme 3TB HDD'', size_text = str ''3TB'',
     size_gb = Num 3000, number = str ''N82E16822234345'',
     price_per_tb = Num (2666333333333333333333333333 / 10 ^ 26)\<rparr>"

section \<open>The words of the claims about capacities\<close>

text \<open>
  A decimal numeral \<open>N\<close> as a title writes it: the digits \<open>ip\<close>, and after a point the digits
  \<open>fp\<close>, at most 28 digits in all; and the number it denotes. \<open>digits_text\<close> is a whole number of
  \<open>lo\<close> to \<open>hi\<close> digits.
\<close>

definition numeral_text :: "pystr \<Rightarrow> pystr \<Rightarrow> pystr \<Rightarrow> bool" where
  "numeral_text N ip fp =
     (ip \<noteq> [] \<and> list_all is_ascii_digit ip \<and> list_all is_ascii_digit fp
      \<and> length ip + length fp \<le> 28 \<and> ((N = ip \<and> fp = []) \<or> N = ip @ 46 # fp))"

definition numeral_value :: "pystr \<Rightarrow> pystr \<Rightarrow> rat" where
  "numeral_value ip fp = of_nat (digits_val (ip @ fp)) / 10 ^ length fp"

definition digits_text :: "nat \<Rightarrow> nat \<Rightarrow> pystr \<Rightarrow> bool" where
  "digits_text lo hi N = (list_all is_ascii_digit N \<and> lo \<le> length N \<and> length N \<le> hi)"

text \<open>An item container has a title link whose \<open>href\<close> gives a number that is not empty.\<close>

definition has_item_number :: "node \<Rightarrow> bool" where
  "has_item_number item =
     (case find_class item ''a'' ''item-title'' of
        None \<Rightarrow> False
      | Some title_link \<Rightarrow>
          (case get_attr title_link (str ''href'') of
             None \<Rightarrow> False
           | Some href \<Rightarrow> item_number_of href \<noteq> []))"

section \<open>Unfolding the model on concrete inputs\<close>

lemmas char_defs = str_def is_space_def is_c_space_def is_ascii_digit_def is_currency_char_def
  is_currency_code_def pound_sign_def euro_sign_def ascii_lower_def

lemmas number_defs = parse_number_def parse_exponent_def split_sign_def c_strip_def py_strip_def
  digits_val_def pow10_def signed_def

lemmas float_defs = py_float_def float_of_ascii_def

lemmas decimal_defs = py_decimal_def decimal_of_ascii_def starts_with_def exact_in_max_context_def
  max_emax_def max_etiny_def parse_price_text_def

lemmas regex_defs = re_search_def down_from_def run_length_def word_boundary_def is_word_def
  is_size_char_def is_unit_char_def is_b_char_def size_match_at_def size_search_def

lemmas dom_defs = find_all_def find_class_def find_child_def first_of_def hidden_price_def
  out_of_stock_def cur_price_def or_empty_def item_containers_def contains_def str_find_def
  item_number_of_def

lemmas example_dom_defs = item_container_def price_current_def page_of_def item_3tb_def
  item_no_price_def promo_out_of_stock_def item_out_of_stock_def item_no_price_element_def
  item_short_link_def item_path_link_def item_button_out_of_stock_def

lemmas example_defs = listing_a_def listing_b_def listing_a_again_def exact_ops_def row_newegg_def
  row_amazon_def row_incomplete_def

section \<open>Properties of the normalizers of hdd_price_scraper.py\<close>

lemma sub_space_rest_newline: "sub_space_rest (dropWhile (\<lambda>d. d \<noteq> 10) s) = []"
proof (induction "length s" arbitrary: s rule: less_induct)
  case less
  show ?case
  proof (cases "dropWhile (\<lambda>d. d \<noteq> 10) s")
    case Nil
    show ?thesis unfolding Nil by simp
  next
    case (Cons c t)
    then have c: "c = 10"
      using hd_dropWhile [of "\<lambda>d. d \<noteq> 10" s] by auto
    have "length (c # t) \<le> length s"
      using Cons length_dropWhile_le [of "\<lambda>d. d \<noteq> 10" s] by simp
    then have "length t < length s" by simp
    then have "sub_space_rest (dropWhile (\<lambda>d. d \<noteq> 10) t) = []"
      by (rule less)
    then show ?thesis using Cons c by (simp add: is_space_def)
  qed
qed

lemma sub_space_rest_takeWhile: "sub_space_rest s = takeWhile (\<lambda>c. \<not> is_space c) s"
  by (induction s) (simp_all add: sub_space_rest_newline)

lemma dropWhile_none: "list_all (\<lambda>c. \<not> P c) s \<Longrightarrow> dropWhile P s = s"
  by (cases s) auto

lemma py_strip_no_space: "list_all (\<lambda>c. \<not> is_space c) s \<Longrightarrow> py_strip s = s"
  unfolding py_strip_def by (simp add: dropWhile_none)

text \<open>
  Claim C2. \<open>parse_price\<close> reads \<open>$1,234.56\<close> as 1234.56, the range
  \<open>\<euro>99 - \<euro>120\<close> as its lower bound 99, \<open>19.99 (free shipping)\<close> as 19.99, and
  returns \<open>None\<close> for \<open>N/A\<close>. In general the number is read from the text that is left
  of the first hyphen and of the first whitespace character, after the currency marks are deleted.
\<close>

theorem parse_price_examples:
  "parse_price U (Some (str ''$1,234.56'')) = Inr (Some (Float 1234.56))
   \<and> parse_price U (Some (euro_sign # str ''99 - '' @ euro_sign # str ''120'')) = Inr (Some (Float 99))
   \<and> parse_price U (Some (str ''19.99 (free shipping)'')) = Inr (Some (Float 19.99))
   \<and> parse_price U (Some (str ''N/A'')) = Inr None
   \<and> parse_price_body U s =
       py_float U (takeWhile (\<lambda>c. \<not> is_space c) (takeWhile (\<lambda>c. c \<noteq> 45) (sub_currency s)))"
proof -
  have a: "parse_price U (Some (str ''$1,234.56'')) = Inr (Some (Float 1234.56))"
    by (simp add: parse_price_def parse_price_body_def char_defs number_defs float_defs)
  have b: "parse_price U (Some (euro_sign # str ''99 - '' @ euro_sign # str ''120'')) = Inr (Some (Float 99))"
    by (simp add: parse_price_def parse_price_body_def char_defs number_defs float_defs)
  have c: "parse_price U (Some (str ''19.99 (free shipping)'')) = Inr (Some (Float 19.99))"
    by (simp add: parse_price_def parse_price_body_def char_defs number_defs float_defs)
  have d: "parse_price U (Some (str ''N/A'')) = Inr None"
    by (simp add: parse_price_def parse_price_body_def char_defs number_defs float_defs)
  have "list_all (\<lambda>c. \<not> is_space c) (takeWhile (\<lambda>c. \<not> is_space c) t)" for t
    by (auto simp: list_all_iff dest: set_takeWhileD)
  then have e: "parse_price_body U s =
       py_float U (takeWhile (\<lambda>c. \<not> is_space c) (takeWhile (\<lambda>c. c \<noteq> 45) (sub_currency s)))"
    by (simp add: parse_price_body_def sub_space_rest_takeWhile py_strip_no_space)
  from a b c d e show ?thesis by blast
qed

text \<open>
  Claim C10. Called with \<open>None\<close> or with the empty string, \<open>parse_price\<close> and
  \<open>parse_capacity_tb\<close> return \<open>None\<close> and raise nothing: the guard is the first thing
  either function does.
\<close>

theorem normalizers_none_or_empty:
  "parse_price U None = Inr None \<and> parse_price U (Some []) = Inr None
   \<and> parse_capacity_tb U None = Inr None \<and> parse_capacity_tb U (Some []) = Inr None"
  by (simp add: parse_price_def parse_capacity_tb_def)

lemma first_some_SomeD: "first_some f xs = Some y \<Longrightarrow> \<exists>x\<in>set xs. f x = Some y"
  by (induction xs) (auto split: option.splits)

lemma set_down_from: "set (down_from n lo) = {k. lo \<le> k \<and> k \<le> n}"
  by (auto simp: down_from_def)

lemma take_run_all:
  assumes "k \<le> run_length P s"
  shows "list_all P (take k s) \<and> length (take k s) = k"
proof -
  have kk: "k \<le> length (takeWhile P s)"
    using assms by (simp add: run_length_def)
  have "take k s = take k (takeWhile P s @ dropWhile P s)"
    by simp
  also have "\<dots> = take k (takeWhile P s)"
    using kk by (simp del: takeWhile_dropWhile_id)
  finally have t: "take k s = take k (takeWhile P s)" .
  have "list_all P (take k (takeWhile P s))"
    by (auto simp: list_all_iff dest!: in_set_takeD set_takeWhileD)
  moreover have "length (take k (takeWhile P s)) = k"
    using kk by simp
  ultimately show ?thesis
    by (simp add: t)
qed

lemma capacity_match_at_digits:
  assumes "capacity_match_at U lo hi short long s i = Some g"
  shows "list_all (is_decimal U) g \<and> lo \<le> length g \<and> length g \<le> hi"
proof -
  from assms obtain k where k: "k \<in> set (down_from (min hi (run_length (is_decimal U) (drop i s))) lo)"
    and "first_some (\<lambda>m. let p = i + k + m in
           if (starts_with short (drop p s) \<and> word_boundary U s (p + length short))
              \<or> (starts_with long (drop p s) \<and> word_boundary U s (p + length long))
           then Some (take k (drop i s)) else None)
          (down_from (run_length is_space (drop (i + k) s)) 0) = Some g"
    unfolding capacity_match_at_def by (blast dest: first_some_SomeD)
  then obtain m where "(let p = i + k + m in
           if (starts_with short (drop p s) \<and> word_boundary U s (p + length short))
              \<or> (starts_with long (drop p s) \<and> word_boundary U s (p + length long))
           then Some (take k (drop i s)) else None) = Some g"
    by (blast dest: first_some_SomeD)
  then have g: "g = take k (drop i s)"
    by (simp add: Let_def split: if_splits)
  from k have "lo \<le> k" "k \<le> hi" "k \<le> run_length (is_decimal U) (drop i s)"
    by (simp_all add: set_down_from)
  then show ?thesis
    using take_run_all [of k "is_decimal U" "drop i s"] g by simp
qed

lemma re_search_capacity_digits:
  assumes "re_search (capacity_match_at U lo hi short long s) s = Some g"
  shows "list_all (is_decimal U) g \<and> lo \<le> length g \<and> length g \<le> hi"
  using assms unfolding re_search_def
  by (blast dest: first_some_SomeD capacity_match_at_digits)

lemma is_decimal_ascii:
  "is_decimal U c \<Longrightarrow> \<exists>a. (if c < 127 then Some c else if is_space c then Some 32
            else map_option (\<lambda>d. 48 + d) (decimal_digit U c)) = Some a \<and> is_ascii_digit a"
  by (auto simp: is_decimal_def decimal_digit_def is_ascii_digit_def split: if_splits option.splits)

lemma to_ascii_numeric_digits:
  "list_all (is_decimal U) g \<Longrightarrow>
     \<exists>a. to_ascii_numeric U g = Some a \<and> list_all is_ascii_digit a \<and> length a = length g"
proof (induction g)
  case Nil
  then show ?case by simp
next
  case (Cons c g)
  then obtain a where a: "to_ascii_numeric U g = Some a" "list_all is_ascii_digit a" "length a = length g"
    by auto
  from Cons.prems obtain b where
    "(if c < 127 then Some c else if is_space c then Some 32
            else map_option (\<lambda>d. 48 + d) (decimal_digit U c)) = Some b" "is_ascii_digit b"
    using is_decimal_ascii [of U c] by auto
  with a show ?case by simp
qed

lemma underscores_ok_digits:
  "list_all is_ascii_digit a \<Longrightarrow> p \<noteq> 95 \<Longrightarrow> underscores_ok p a"
  by (induction a arbitrary: p) (auto simp: is_ascii_digit_def)

lemma filter_digits: "list_all is_ascii_digit a \<Longrightarrow> filter (\<lambda>c. c \<noteq> 95) a = a"
  by (induction a) (auto simp: is_ascii_digit_def)

lemma c_strip_digits: "list_all is_ascii_digit a \<Longrightarrow> c_strip a = a"
proof -
  assume "list_all is_ascii_digit a"
  then have "list_all (\<lambda>c. \<not> is_c_space c) a"
    by (auto simp: list_all_iff is_ascii_digit_def is_c_space_def)
  then show ?thesis
    unfolding c_strip_def by (simp add: dropWhile_none)
qed

lemma py_int_digits:
  assumes "list_all (is_decimal U) g" "1 \<le> length g" "length g \<le> 4300"
  shows "\<exists>n. py_int U g = Inr n"
proof -
  from assms(1) obtain a where a: "to_ascii_numeric U g = Some a" "list_all is_ascii_digit a"
      "length a = length g"
    using to_ascii_numeric_digits by blast
  have ne: "a \<noteq> []"
    using a(3) assms(2) by auto
  then have "is_ascii_digit (hd a)"
    using a(2) by (cases a) auto
  then have sign: "split_sign a = (False, a)"
    using ne by (cases a) (auto simp: split_sign_def is_ascii_digit_def)
  have "underscores_ok 0 a"
    using a(2) by (simp add: underscores_ok_digits)
  then show ?thesis
    using a assms(3) ne sign
    by (simp add: py_int_def filter_digits c_strip_digits)
qed

lemma py_float_raises: "py_float U s = Inl e \<Longrightarrow> e = ValueError"
  by (auto simp: py_float_def split: option.splits if_splits)

lemma parse_price_returns: "\<exists>r. parse_price U x = Inr r"
proof (cases x)
  case None
  then show ?thesis by (simp add: parse_price_def)
next
  case (Some s)
  show ?thesis
  proof (cases "parse_price_body U s")
    case (Inl e)
    then have "e = ValueError"
      unfolding parse_price_body_def Let_def by (rule py_float_raises)
    with Inl Some show ?thesis by (simp add: parse_price_def)
  next
    case (Inr v)
    with Some show ?thesis by (simp add: parse_price_def)
  qed
qed

lemma parse_capacity_tb_returns: "\<exists>r. parse_capacity_tb U x = Inr r"
proof (cases x)
  case None
  then show ?thesis by (simp add: parse_capacity_tb_def)
next
  case (Some t)
  let ?l = "py_lower U t"
  have ok: "\<exists>n. py_int U g = Inr n"
    if "re_search (capacity_match_at U lo hi short long ?l) ?l = Some g" "1 \<le> lo" "hi \<le> 5"
    for lo hi short long g
    using re_search_capacity_digits [OF that(1)] that(2,3) by (intro py_int_digits) auto
  show ?thesis
  proof (cases "re_search (capacity_match_at U 1 3 (str ''tb'') (str ''terabyte'') ?l) ?l")
    case (Some g)
    then obtain n where "py_int U g = Inr n" using ok by fastforce
    with Some \<open>x = Some t\<close> show ?thesis by (simp add: parse_capacity_tb_def)
  next
    case None
    note tb = None
    show ?thesis
    proof (cases "re_search (capacity_match_at U 3 5 (str ''gb'') (str ''gigabyte'') ?l) ?l")
      case (Some g)
      then obtain n where "py_int U g = Inr n" using ok by fastforce
      with Some tb \<open>x = Some t\<close> show ?thesis by (simp add: parse_capacity_tb_def)
    next
      case None
      with tb \<open>x = Some t\<close> show ?thesis by (simp add: parse_capacity_tb_def)
    qed
  qed
qed

text \<open>
  Claim C6, as it holds. \<open>parse_price\<close> and \<open>parse_capacity_tb\<close> of hdd_price_scraper.py
  return on every argument, a string or \<open>None\<close>, and never raise: the only exception of the
  body of \<open>parse_price\<close> is the \<open>ValueError\<close> of \<open>float\<close>, which is caught, and \<open>int\<close> is
  applied to matched digits only.
\<close>

theorem hdd_normalizers_never_raise:
  "(\<exists>r. parse_price U price_str = Inr r) \<and> (\<exists>r. parse_capacity_tb U ttl = Inr r)"
  using parse_price_returns parse_capacity_tb_returns by blast

text \<open>
  The claim C6 fails for crawl.py: \<open>parse_page\<close> raises \<open>InvalidOperation\<close> again for a price
  text that is no decimal, and \<open>Decimal\<close> of a matched capacity with two points raises as well;
  the exception leaves \<open>parse_page\<close>.
\<close>

theorem crawl_normalization_raises:
  "parse_price_text ascii_db (str ''N/A'') = Inl InvalidOperation
   \<and> parse_size ascii_db (str ''1.2.3TB'') = Inl InvalidOperation
   \<and> parse_page ascii_db (page_of [item_no_price, item_3tb]) = Inl InvalidOperation"
proof -
  have a: "parse_price_text ascii_db (str ''N/A'') = Inl InvalidOperation"
    by (simp add: char_defs number_defs decimal_defs)
  have b: "parse_size ascii_db (str ''1.2.3TB'') = Inl InvalidOperation"
    by (simp add: parse_size_def char_defs number_defs decimal_defs regex_defs upt_rec)
  have "parse_item ascii_db item_no_price = Raise InvalidOperation"
    by (simp add: parse_item_def emit_item_def dom_defs example_dom_defs char_defs number_defs
        decimal_defs upt_rec)
  then have c: "parse_page ascii_db (page_of [item_no_price, item_3tb]) = Inl InvalidOperation"
    by (simp add: parse_page_def item_containers_def contains_def str_find_def starts_with_def
        upt_rec page_of_def item_container_def item_3tb_def item_no_price_def str_def)
  from a b c show ?thesis by blast
qed

section \<open>Properties of the ranking\<close>


lemma set_dedupe: "set (dedupe seen xs) \<subseteq> set xs"
  by (induction xs arbitrary: seen) auto

lemma dedupe_filter:
  "filter (\<lambda>i. number i = n) (dedupe seen xs) =
     (if n \<in> seen then [] else (case find (\<lambda>i. number i = n) xs of None \<Rightarrow> [] | Some x \<Rightarrow> [x]))"
proof (induction xs arbitrary: seen)
  case Nil
  then show ?case by simp
next
  case (Cons x xs)
  then show ?case by (auto split: option.splits)
qed

lemma dedupe_distinct:
  "distinct (map number (dedupe seen xs)) \<and> number ` set (dedupe seen xs) \<inter> seen = {}"
  by (induction xs arbitrary: seen) auto

lemma dedupe_id:
  "distinct (map number xs) \<Longrightarrow> number ` set xs \<inter> seen = {} \<Longrightarrow> dedupe seen xs = xs"
  by (induction xs arbitrary: seen) auto

lemma sort_by_price_per_tb_Inr:
  "sort_by_price_per_tb xs = Inr out \<Longrightarrow> out = sort_key (\<lambda>i. decimal_key (price_per_tb i)) xs"
  by (auto simp: sort_by_price_per_tb_def split: if_splits)

lemma sort_by_price_per_tb_total:
  "\<forall>i\<in>set xs. \<not> is_nan (price_per_tb i) \<Longrightarrow>
     sort_by_price_per_tb xs = Inr (sort_key (\<lambda>i. decimal_key (price_per_tb i)) xs)"
  by (auto simp: sort_by_price_per_tb_def list_ex_iff)

lemma successively_sort_key:
  "successively (\<lambda>a b. f a \<le> f b) (sort_key f xs)"
proof -
  have "sorted (map f (sort_key f xs))" by (rule sorted_sort_key)
  then have "sorted_wrt (\<lambda>a b. f a \<le> f b) (sort_key f xs)"
    by (simp add: sorted_map)
  then show ?thesis by (rule successively_if_sorted_wrt)
qed

lemma example_rank:
  "dedupe_and_rank [listing_a, listing_b, listing_a_again] = Inr [listing_a, listing_b]"
  by (simp add: dedupe_and_rank_def sort_by_price_per_tb_def is_nan_def example_defs str_def)

lemma example_table:
  "df_sorted exact_ops [row_newegg, row_incomplete, row_amazon] = [(25, row_amazon), (25, row_newegg)]"
  by (simp add: df_sorted_def List.map_filter_def price_per_tb_column_def example_defs str_def)

text \<open>
  Claim C3. In the ranked output every adjacent pair is in order of price per terabyte. For
  group_items of crawl.py (\<open>dedupe_and_rank\<close>) the order is that of the decimals; its items
  all come from one retailer and carry no retailer field. For the table of
  hdd_price_scraper.py (\<open>df_sorted\<close>) equal prices per terabyte are in the lexicographic order
  of the retailer. The sort of crawl.py returns whenever no price per terabyte is a NaN.
\<close>

theorem ranking_order:
  "(dedupe_and_rank items = Inr out \<longrightarrow>
      successively (\<lambda>a b. dec_le (price_per_tb a) (price_per_tb b)) out)
   \<and> ((\<forall>i\<in>set items. \<not> is_nan (price_per_tb i)) \<longrightarrow> (\<exists>out'. dedupe_and_rank items = Inr out'))
   \<and> successively (\<lambda>(v, r) (w, q). v \<le> w \<and> (v = w \<longrightarrow> Retailer r \<le> Retailer q)) (df_sorted F rows)"
proof (intro conjI impI)
  assume "dedupe_and_rank items = Inr out"
  then have "out = sort_key (\<lambda>i. decimal_key (price_per_tb i)) (dedupe {} items)"
    by (simp add: dedupe_and_rank_def sort_by_price_per_tb_Inr)
  then show "successively (\<lambda>a b. dec_le (price_per_tb a) (price_per_tb b)) out"
    unfolding dec_le_def by (simp add: successively_sort_key)
next
  assume "\<forall>i\<in>set items. \<not> is_nan (price_per_tb i)"
  then have "\<forall>i\<in>set (dedupe {} items). \<not> is_nan (price_per_tb i)"
    using set_dedupe by blast
  then show "\<exists>out'. dedupe_and_rank items = Inr out'"
    by (simp add: dedupe_and_rank_def sort_by_price_per_tb_total)
next
  let ?k = "\<lambda>(v, r). (v, Retailer (r :: 'a row))"
  have "successively (\<lambda>a b. ?k a \<le> ?k b) (df_sorted F rows)"
    unfolding df_sorted_def by (rule successively_sort_key)
  then show "successively (\<lambda>(v, r) (w, q). v \<le> w \<and> (v = w \<longrightarrow> Retailer r \<le> Retailer q))
     (df_sorted F rows)"
    by (rule successively_mono) auto
qed

theorem ranking_order_witness:
  "dedupe_and_rank [listing_a, listing_b, listing_a_again] = Inr [listing_a, listing_b]
   \<and> successively (\<lambda>a b. dec_le (price_per_tb a) (price_per_tb b)) [listing_a, listing_b]
   \<and> list_all (\<lambda>i. \<not> is_nan (price_per_tb i)) [listing_a, listing_b, listing_a_again]
   \<and> successively (\<lambda>(v, r) (w, q). v \<le> w \<and> (v = w \<longrightarrow> Retailer r \<le> Retailer q))
        (df_sorted exact_ops [row_newegg, row_incomplete, row_amazon])
   \<and> df_sorted exact_ops [row_newegg, row_incomplete, row_amazon] = [(25, row_amazon), (25, row_newegg)]"
  using ranking_order [of "[listing_a, listing_b, listing_a_again]" "[listing_a, listing_b]"
      exact_ops "[row_newegg, row_incomplete, row_amazon]"] example_rank example_table
  by (simp add: is_nan_def example_defs)

text \<open>
  Claim C4. After deduplication by the item number, the output of \<open>dedupe_and_rank\<close> holds for
  every number \<open>n\<close> exactly the first item of the input that has this number, whatever the
  prices of the later ones; a duplicate raises nothing.
\<close>

theorem dedupe_first_wins:
  "(dedupe_and_rank items = Inr out \<longrightarrow>
      filter (\<lambda>i. number i = n) out =
        (case find (\<lambda>i. number i = n) items of None \<Rightarrow> [] | Some x \<Rightarrow> [x]))
   \<and> ((\<forall>i\<in>set items. \<not> is_nan (price_per_tb i)) \<longrightarrow> (\<exists>out'. dedupe_and_rank items = Inr out'))"
proof (intro conjI impI)
  assume "dedupe_and_rank items = Inr out"
  then have out: "out = sort_key (\<lambda>i. decimal_key (price_per_tb i)) (dedupe {} items)"
    by (simp add: dedupe_and_rank_def sort_by_price_per_tb_Inr)
  have "filter (\<lambda>i. number i = n) out
      = sort_key (\<lambda>i. decimal_key (price_per_tb i)) (filter (\<lambda>i. number i = n) (dedupe {} items))"
    unfolding out by (rule filter_sort)
  then show "filter (\<lambda>i. number i = n) out =
        (case find (\<lambda>i. number i = n) items of None \<Rightarrow> [] | Some x \<Rightarrow> [x])"
    by (simp add: dedupe_filter split: option.splits)
next
  assume "\<forall>i\<in>set items. \<not> is_nan (price_per_tb i)"
  then have "\<forall>i\<in>set (dedupe {} items). \<not> is_nan (price_per_tb i)"
    using set_dedupe by blast
  then show "\<exists>out'. dedupe_and_rank items = Inr out'"
    by (simp add: dedupe_and_rank_def sort_by_price_per_tb_total)
qed

theorem dedupe_first_wins_witness:
  "dedupe_and_rank [listing_a, listing_b, listing_a_again] = Inr [listing_a, listing_b]
   \<and> filter (\<lambda>i. number i = str ''A'') [listing_a, listing_b] = [listing_a]
   \<and> find (\<lambda>i. number i = str ''A'') [listing_a, listing_b, listing_a_again] = Some listing_a
   \<and> price listing_a \<noteq> price listing_a_again"
  using dedupe_first_wins [of "[listing_a, listing_b, listing_a_again]" "[listing_a, listing_b]" "str ''A''"]
    example_rank
  by (simp add: example_defs str_def)

text \<open>
  Claim C9. \<open>dedupe_and_rank\<close> applied to its own output returns that output unchanged.
\<close>

theorem dedupe_and_rank_idempotent:
  "dedupe_and_rank items = Inr out \<Longrightarrow> dedupe_and_rank out = Inr out"
proof -
  let ?k = "\<lambda>i. decimal_key (price_per_tb i)"
  let ?d = "dedupe {} items"
  assume a: "dedupe_and_rank items = Inr out"
  then have out: "out = sort_key ?k ?d"
    by (simp add: dedupe_and_rank_def sort_by_price_per_tb_Inr)
  have ok: "\<not> (2 \<le> length ?d \<and> list_ex (\<lambda>i. is_nan (price_per_tb i)) ?d)"
    using a by (auto simp: dedupe_and_rank_def sort_by_price_per_tb_def split: if_splits)
  have "mset out = mset ?d"
    unfolding out by simp
  then have "mset (map number out) = mset (map number ?d)"
    by simp
  then have "distinct (map number out)"
    using dedupe_distinct [of "{}" items] by (metis mset_eq_imp_distinct_iff)
  then have d: "dedupe {} out = out"
    by (simp add: dedupe_id)
  have "sorted (map ?k out)"
    unfolding out by (rule sorted_sort_key)
  then have s: "sort_key ?k out = out"
    by (rule sort_key_id_if_sorted)
  have "length out = length ?d" "set out = set ?d"
    unfolding out by simp_all
  then have "\<not> (2 \<le> length out \<and> list_ex (\<lambda>i. is_nan (price_per_tb i)) out)"
    using ok by (simp add: list_ex_iff)
  then show ?thesis
    by (simp add: dedupe_and_rank_def sort_by_price_per_tb_def d s)
qed

theorem dedupe_and_rank_idempotent_witness:
  "dedupe_and_rank [listing_a, listing_b, listing_a_again] = Inr [listing_a, listing_b]
   \<and> dedupe_and_rank [listing_a, listing_b] = Inr [listing_a, listing_b]"
  using dedupe_and_rank_idempotent [OF example_rank] example_rank by simp




section \<open>Properties of the decimal arithmetic\<close>

lemma pow10_powi: "pow10 e = 10 powi e"
  by (simp add: pow10_def power_int_def power_one_over [symmetric] inverse_eq_divide)

lemma pow10_pos [simp]: "0 < pow10 e"
  by (simp add: pow10_powi)

lemma pow10_nonzero [simp]: "pow10 e \<noteq> 0"
  by (simp add: pow10_powi)

lemma pow10_nonneg [simp]: "0 \<le> pow10 e"
  by (simp add: pow10_powi)

lemma pow10_abs [simp]: "\<bar>pow10 e\<bar> = pow10 e"
  by (simp add: abs_of_pos)

lemma pow10_add: "pow10 (a + b) = pow10 a * pow10 b"
  by (simp add: pow10_powi power_int_add)

lemma pow10_nat: "pow10 (int n) = 10 ^ n"
  by (simp add: pow10_powi)

lemma pow10_strict_mono: "a < b \<Longrightarrow> pow10 a < pow10 b"
  by (simp add: pow10_powi power_int_strict_increasing)

lemma pow10_mono: "a \<le> b \<Longrightarrow> pow10 a \<le> pow10 b"
  by (simp add: pow10_powi power_int_increasing)

lemma ndigits_pos: "0 < ndigits n"
  by (subst ndigits.simps) simp

lemma ndigits_upper: "n < 10 ^ ndigits n"
proof (induction n rule: ndigits.induct)
  case (1 n)
  show ?case
  proof (cases "n < 10")
    case True
    then show ?thesis by (subst ndigits.simps) simp
  next
    case False
    then have "n div 10 < 10 ^ ndigits (n div 10)" using 1 by simp
    then have "n < 10 * 10 ^ ndigits (n div 10)" by linarith
    with False show ?thesis by (subst ndigits.simps) simp
  qed
qed

lemma ndigits_lower: "0 < n \<Longrightarrow> 10 ^ (ndigits n - 1) \<le> n"
proof (induction n rule: ndigits.induct)
  case (1 n)
  show ?case
  proof (cases "n < 10")
    case True
    with 1 show ?thesis by (subst ndigits.simps) simp
  next
    case False
    then have "0 < n div 10" by simp
    with 1 False have ih: "10 ^ (ndigits (n div 10) - 1) \<le> n div 10" by simp
    have "ndigits n - 1 = Suc (ndigits (n div 10) - 1)"
      using False ndigits_pos [of "n div 10"] by (subst ndigits.simps) simp
    then have "(10::nat) ^ (ndigits n - 1) = 10 * 10 ^ (ndigits (n div 10) - 1)" by simp
    also have "\<dots> \<le> 10 * (n div 10)" using ih by simp
    also have "\<dots> \<le> n" by simp
    finally show ?thesis .
  qed
qed

lemma adjusted_unique:
  assumes "pow10 a \<le> \<bar>q\<bar>" "\<bar>q\<bar> < pow10 (a + 1)" "pow10 b \<le> \<bar>q\<bar>" "\<bar>q\<bar> < pow10 (b + 1)"
  shows "a = b"
proof (rule ccontr)
  assume "a \<noteq> b"
  then consider "a + 1 \<le> b" | "b + 1 \<le> a" by linarith
  then show False
  proof cases
    case 1
    then have "pow10 (a + 1) \<le> pow10 b" by (rule pow10_mono)
    with assms show False by linarith
  next
    case 2
    then have "pow10 (b + 1) \<le> pow10 a" by (rule pow10_mono)
    with assms show False by linarith
  qed
qed

lemma adjusted_bounds:
  assumes "q \<noteq> 0"
  shows "pow10 (adjusted q) \<le> \<bar>q\<bar> \<and> \<bar>q\<bar> < pow10 (adjusted q + 1)"
proof -
  obtain a b where ab: "quotient_of q = (a, b)" by (cases "quotient_of q")
  then have b: "0 < b" and q: "q = of_int a / of_int b"
    using quotient_of_denom_pos quotient_of_div by blast+
  with assms have a: "a \<noteq> 0" by auto
  define A B where "A = nat \<bar>a\<bar>" and "B = nat b"
  have A: "0 < A" and B: "0 < B" using a b by (simp_all add: A_def B_def)
  have absq: "\<bar>q\<bar> = of_nat A / of_nat B"
    using b by (simp add: q A_def B_def abs_div of_nat_nat)
  define e0 where "e0 = int (ndigits A) - int (ndigits B)"
  have adj: "adjusted q = (if pow10 e0 \<le> \<bar>q\<bar> then e0 else e0 - 1)"
    by (simp add: adjusted_def ab A_def B_def e0_def Let_def)
  have Bpos: "(0::rat) < of_nat B" using B by simp
  have up: "\<bar>q\<bar> < pow10 (e0 + 1)"
  proof -
    have "(of_nat A :: rat) < 10 ^ ndigits A"
      using ndigits_upper [of A] by (metis of_nat_less_iff of_nat_numeral of_nat_power)
    moreover have "(10 :: rat) ^ (ndigits B - 1) \<le> of_nat B"
      using ndigits_lower [OF B] by (metis of_nat_le_iff of_nat_numeral of_nat_power)
    moreover have "pow10 (e0 + 1) = 10 ^ ndigits A / 10 ^ (ndigits B - 1)"
    proof -
      have "e0 + 1 = int (ndigits A) - int (ndigits B - 1)"
        using ndigits_pos [of B] by (simp add: e0_def)
      then show ?thesis
        by (simp add: pow10_powi power_int_diff)
    qed
    moreover have "(of_nat A :: rat) / of_nat B \<le> of_nat A / 10 ^ (ndigits B - 1)"
      using calculation(2) by (intro frac_le) simp_all
    moreover have "(of_nat A :: rat) / 10 ^ (ndigits B - 1) < 10 ^ ndigits A / 10 ^ (ndigits B - 1)"
      using calculation(1) by (intro divide_strict_right_mono) simp_all
    ultimately show ?thesis
      unfolding absq by linarith
  qed
  have lo: "pow10 (e0 - 1) \<le> \<bar>q\<bar>"
  proof -
    have "(10 :: rat) ^ (ndigits A - 1) \<le> of_nat A"
      using ndigits_lower [OF A] by (metis of_nat_le_iff of_nat_numeral of_nat_power)
    moreover have "(of_nat B :: rat) < 10 ^ ndigits B"
      using ndigits_upper [of B] by (metis of_nat_less_iff of_nat_numeral of_nat_power)
    moreover have "pow10 (e0 - 1) = 10 ^ (ndigits A - 1) / 10 ^ ndigits B"
    proof -
      have "e0 - 1 = int (ndigits A - 1) - int (ndigits B)"
        using ndigits_pos [of A] by (simp add: e0_def)
      then show ?thesis
        by (simp add: pow10_powi power_int_diff)
    qed
    moreover have "(10 :: rat) ^ (ndigits A - 1) / 10 ^ ndigits B \<le> of_nat A / of_nat B"
      using calculation(1,2) Bpos by (intro frac_le) simp_all
    ultimately show ?thesis
      unfolding absq by linarith
  qed
  show ?thesis
  proof (cases "pow10 e0 \<le> \<bar>q\<bar>")
    case True
    with adj up show ?thesis by simp
  next
    case False
    with adj lo show ?thesis by simp
  qed
qed

lemma adjusted_eqI:
  assumes "pow10 a \<le> \<bar>q\<bar>" "\<bar>q\<bar> < pow10 (a + 1)"
  shows "adjusted q = a"
proof -
  have "0 < \<bar>q\<bar>" using assms(1) pow10_pos [of a] by linarith
  then have "q \<noteq> 0" by simp
  then show ?thesis
    using adjusted_bounds adjusted_unique assms by blast
qed

lemma round_half_even_of_int [simp]: "round_half_even (of_int n) = n"
  by (simp add: round_half_even_def)

lemma of_nat_pow10_lower: "0 < C \<Longrightarrow> pow10 (int (ndigits C) - 1) \<le> of_nat C"
proof -
  assume C: "0 < C"
  have "(10 :: nat) ^ (ndigits C - 1) \<le> C"
    using C by (rule ndigits_lower)
  then have "(of_nat (10 ^ (ndigits C - 1)) :: rat) \<le> of_nat C"
    by (simp only: of_nat_le_iff)
  then have "(10 :: rat) ^ (ndigits C - 1) \<le> of_nat C"
    by simp
  moreover have "int (ndigits C) - 1 = int (ndigits C - 1)"
    using ndigits_pos [of C] by simp
  ultimately show ?thesis
    by (simp only: pow10_nat)
qed

lemma of_nat_pow10_upper: "(of_nat C :: rat) < pow10 (int (ndigits C))"
proof -
  have "C < 10 ^ ndigits C" by (rule ndigits_upper)
  then have "(of_nat C :: rat) < of_nat (10 ^ ndigits C)"
    by (simp only: of_nat_less_iff)
  then show ?thesis
    by (simp add: pow10_nat)
qed

lemma adjusted_scaled:
  assumes "c \<noteq> 0"
  shows "adjusted (of_int c * pow10 e) = int (ndigits (nat \<bar>c\<bar>)) - 1 + e"
proof -
  define C where "C = nat \<bar>c\<bar>"
  have C: "0 < C" using assms by (simp add: C_def)
  have "(of_int \<bar>c\<bar> :: rat) = of_nat C"
    by (simp add: C_def)
  then have absq: "\<bar>of_int c * pow10 e :: rat\<bar> = of_nat C * pow10 e"
    by (simp only: abs_mult pow10_abs of_int_abs [symmetric])
  have "pow10 (int (ndigits C) - 1 + e) = pow10 (int (ndigits C) - 1) * pow10 e"
    by (rule pow10_add)
  also have "\<dots> \<le> of_nat C * pow10 e"
    using of_nat_pow10_lower [OF C] by (intro mult_right_mono) simp_all
  finally have lo: "pow10 (int (ndigits C) - 1 + e) \<le> \<bar>of_int c * pow10 e :: rat\<bar>"
    by (simp only: absq)
  have "of_nat C * pow10 e < pow10 (int (ndigits C)) * pow10 e"
    using of_nat_pow10_upper [of C] by (intro mult_strict_right_mono) simp_all
  also have "\<dots> = pow10 (int (ndigits C) + e)"
    by (simp only: pow10_add)
  also have "int (ndigits C) + e = int (ndigits C) - 1 + e + 1"
    by simp
  finally have up: "\<bar>of_int c * pow10 e :: rat\<bar> < pow10 (int (ndigits C) - 1 + e + 1)"
    by (simp only: absq)
  show ?thesis
    using lo up unfolding C_def by (rule adjusted_eqI)
qed

lemma ndigits_le:
  assumes "n < 10 ^ k" "0 < k"
  shows "ndigits n \<le> k"
proof (cases "n = 0")
  case True
  then show ?thesis using assms(2) by (subst ndigits.simps) simp
next
  case False
  then have "(10::nat) ^ (ndigits n - 1) \<le> n" using ndigits_lower [of n] by simp
  with assms(1) have "(10::nat) ^ (ndigits n - 1) < 10 ^ k" by linarith
  then have "ndigits n - 1 < k" by simp
  then show ?thesis by simp
qed

text \<open>A number of at most 28 significant digits is not changed by the context.\<close>

lemma ctx_round_exact:
  assumes "\<bar>c\<bar> < 10 ^ 28" "etiny \<le> e" "e + 27 \<le> emax"
  shows "ctx_round (of_int c * pow10 e) = Inr (Num (of_int c * pow10 e))"
proof (cases "c = 0")
  case True
  then show ?thesis by (simp add: ctx_round_def)
next
  case False
  let ?q = "of_int c * pow10 e :: rat"
  define d where "d = int (ndigits (nat \<bar>c\<bar>))"
  have d: "d \<le> 28"
    using assms(1) ndigits_le [of "nat \<bar>c\<bar>" 28] by (simp add: d_def nat_less_iff)
  have adj: "adjusted ?q = d - 1 + e"
    using False by (simp add: adjusted_scaled d_def)
  define e' where "e' = max (adjusted ?q - (prec - 1)) etiny"
  have e': "e' \<le> e"
    using d assms(2) by (simp add: e'_def adj prec_def)
  have "pow10 e = pow10 (e - e') * pow10 e'"
    by (simp add: pow10_add [symmetric])
  then have "?q / pow10 e' = of_int c * pow10 (e - e')"
    by simp
  also have "pow10 (e - e') = of_int (10 ^ nat (e - e'))"
    using e' by (simp add: pow10_def)
  finally have scaled: "?q / pow10 e' = of_int (c * 10 ^ nat (e - e'))"
    by simp
  have "round_half_even (?q / pow10 e') = c * 10 ^ nat (e - e')"
    unfolding scaled by (rule round_half_even_of_int)
  then have "of_int (round_half_even (?q / pow10 e')) * pow10 e' = ?q / pow10 e' * pow10 e'"
    by (simp only: scaled)
  then have "of_int (round_half_even (?q / pow10 e')) * pow10 e' = ?q"
    by simp
  moreover have "?q \<noteq> 0"
    using False pow10_pos [of e] by simp
  moreover have "adjusted ?q \<le> emax"
    using d assms(3) by (simp add: adj)
  ultimately show ?thesis
    by (simp add: ctx_round_def Let_def e'_def [symmetric])
qed

text \<open>The rounding of any number, once the exponents of its leading digit are known.\<close>

lemma ctx_round_eval:
  assumes "pow10 a \<le> \<bar>q\<bar>" "\<bar>q\<bar> < pow10 (a + 1)"
    and "e = max (a - 27) etiny"
    and "r = of_int (round_half_even (q / pow10 e)) * pow10 e"
    and "pow10 b \<le> \<bar>r\<bar>" "\<bar>r\<bar> < pow10 (b + 1)" "b \<le> emax"
  shows "ctx_round q = Inr (Num r)"
proof -
  have "0 < \<bar>q\<bar>"
    using assms(1) pow10_pos [of a] by linarith
  then have q: "q \<noteq> 0" by simp
  have "adjusted q = a" using assms(1,2) by (rule adjusted_eqI)
  moreover have "adjusted r = b" using assms(5,6) by (rule adjusted_eqI)
  ultimately show ?thesis
    using q assms(3,4,7) by (simp add: ctx_round_def Let_def prec_def)
qed

lemma floor_rat_numeral: "\<lfloor>numeral a / numeral b :: rat\<rfloor> = numeral a div numeral b"
  using floor_divide_of_int_eq [of "numeral a" "numeral b", where ?'a = rat] by simp

lemma quotient_7999_3000:
  "ctx_round (7999 / 300000) = Inr (Num (2666333333333333333333333333 / 10 ^ 29))"
  by (rule ctx_round_eval [where a = "- 2" and b = "- 2" and e = "- 29"])
    (simp_all add: pow10_def etiny_def prec_def emax_def round_half_even_def Let_def floor_rat_numeral)

lemma product_rounded:
  "ctx_round (2666333333333333333333333333 / 10 ^ 29 * 1000) = Inr (Num (2666333333333333333333333333 / 10 ^ 26))"
  using ctx_round_exact [of 2666333333333333333333333333 "- 26"]
  by (simp add: pow10_def etiny_def prec_def emax_def)

section \<open>The price per terabyte of crawl.py\<close>

lemma ctx_round_numeral:
  "numeral n < (10::int) ^ 28 \<Longrightarrow> ctx_round (numeral n) = Inr (Num (numeral n))"
  using ctx_round_exact [of "numeral n" 0] by (simp add: pow10_def etiny_def emax_def prec_def)

lemma emit_item_Emit:
  "emit_item U n t d c = Emit r \<Longrightarrow> price_per_tb_of (price r) (size_gb r) = Inr (price_per_tb r)"
  by (auto simp: emit_item_def split: option.splits sum.splits prod.splits)

lemma parse_item_Emit:
  "parse_item U it = Emit r \<Longrightarrow> price_per_tb_of (price r) (size_gb r) = Inr (price_per_tb r)"
  by (auto simp: parse_item_def Let_def emit_item_Emit
      split: option.splits sum.splits prod.splits if_splits bool.splits)

lemma price_per_tb_exact:
  assumes "s \<noteq> 0" "p / s = of_int c * pow10 e" "\<bar>c\<bar> < 10 ^ 28" "- 1000026 \<le> e" "e \<le> 999969"
  shows "price_per_tb_of (Num p) (Num s) = Inr (Num (p * 1000 / s))"
proof -
  have "ctx_round (p / s) = Inr (Num (p / s))"
    unfolding assms(2) using assms(3,4,5)
    by (intro ctx_round_exact) (simp_all add: etiny_def prec_def emax_def)
  moreover have "pow10 3 = 1000"
    by (simp add: pow10_def)
  then have "p / s * 1000 = of_int c * pow10 (e + 3)"
    by (simp add: assms(2) pow10_add)
  moreover have "ctx_round (of_int c * pow10 (e + 3)) = Inr (Num (of_int c * pow10 (e + 3)))"
    using assms(3,4,5) by (intro ctx_round_exact) (simp_all add: etiny_def prec_def emax_def)
  ultimately have "price_per_tb_of (Num p) (Num s) = Inr (Num (p / s * 1000))"
    using assms(1) by (simp add: price_per_tb_of_def)
  then show ?thesis by simp
qed

lemma set_dedupe_and_rank: "dedupe_and_rank items = Inr out \<Longrightarrow> set out \<subseteq> set items"
  using set_dedupe [of "{}" items]
  by (auto simp: dedupe_and_rank_def sort_by_price_per_tb_def split: if_splits)

lemma price_7999: "parse_price_text ascii_db (str ''79'' @ str ''.99'') = Inr (Num (7999 / 100))"
  by (simp add: char_defs number_defs decimal_defs ndigits.simps)

lemma size_3tb: "parse_size ascii_db (str ''Acme 3TB HDD'') = Inr (Some (str ''3TB'', Num 3000))"
  by (simp add: parse_size_def char_defs number_defs decimal_defs regex_defs upt_rec ndigits.simps
      ctx_round_numeral)

lemma size_4tb: "parse_size ascii_db (str ''Acme 4TB HDD'') = Inr (Some (str ''4TB'', Num 4000))"
  by (simp add: parse_size_def char_defs number_defs decimal_defs regex_defs upt_rec ndigits.simps
      ctx_round_numeral)

lemma per_tb_7999_3000:
  "price_per_tb_of (Num (7999 / 100)) (Num 3000) = Inr (Num (2666333333333333333333333333 / 10 ^ 26))"
proof -
  have "(7999 / 100 / 3000 :: rat) = 7999 / 300000" by simp
  then have "dec_div (Num (7999 / 100)) (Num 3000) = Inr (Num (2666333333333333333333333333 / 10 ^ 29))"
    by (simp only: dec_div.simps quotient_7999_3000) simp
  then show ?thesis
    by (simp only: price_per_tb_of_def sum.case dec_mul.simps product_rounded)
qed

lemma per_tb_7999_4000:
  "price_per_tb_of (Num (7999 / 100)) (Num 4000) = Inr (Num (7999 * 1000 / 100 / 4000))"
  using price_per_tb_exact [of 4000 "7999 / 100" 199975 "- 7"] by (simp add: pow10_def)

lemma item_3tb_emitted: "parse_item ascii_db item_3tb = Emit listing_3tb"
proof -
  have "emit_item ascii_db (str ''N82E16822234345'') (str ''Acme 3TB HDD'')
          (Element (str ''strong'') [] (Some (str ''79'')) [] None)
          (Some (Element (str ''sup'') [] (Some (str ''.99'')) [] None)) = Emit listing_3tb"
    by (simp only: emit_item_def node.sel prod.case option.case sum.case price_7999 size_3tb
        per_tb_7999_3000 listing_3tb_def)
  moreover have "parse_item ascii_db item_3tb =
     emit_item ascii_db (str ''N82E16822234345'') (str ''Acme 3TB HDD'')
          (Element (str ''strong'') [] (Some (str ''79'')) [] None)
          (Some (Element (str ''sup'') [] (Some (str ''.99'')) [] None))"
    by (simp add: parse_item_def dom_defs example_dom_defs starts_with_def upt_rec str_def)
  ultimately show ?thesis by simp
qed

text \<open>
  Claim C5, as it holds. Every item that \<open>parse_page\<close> appends carries the price per terabyte
  that crawl.py computes from its own price and capacity, \<open>(price / size_gb) * 1000\<close> in the
  decimal arithmetic of the default context. The value is exactly \<open>price * 1000 / size_gb\<close>
  whenever the quotient has at most 28 significant digits (it is \<open>c * 10^e\<close> with
  \<open>|c| < 10^28\<close>); otherwise the quotient is rounded first. The field is set once, and the
  ranking returns items of its input unchanged.
\<close>

theorem price_per_tb_derived:
  "(parse_item U it = Emit r \<longrightarrow> price_per_tb_of (price r) (size_gb r) = Inr (price_per_tb r))
   \<and> (s \<noteq> 0 \<and> p / s = of_int c * pow10 e \<and> \<bar>c\<bar> < 10 ^ 28 \<and> - 1000026 \<le> e \<and> e \<le> 999969
        \<longrightarrow> price_per_tb_of (Num p) (Num s) = Inr (Num (p * 1000 / s)))
   \<and> (dedupe_and_rank items = Inr out \<longrightarrow> set out \<subseteq> set items)"
  using parse_item_Emit price_per_tb_exact set_dedupe_and_rank by blast

theorem price_per_tb_derived_witness:
  "parse_item ascii_db item_3tb = Emit listing_3tb
   \<and> price_per_tb_of (price listing_3tb) (size_gb listing_3tb) = Inr (price_per_tb listing_3tb)
   \<and> (7999 / 100 :: rat) / 4000 = of_int 199975 * pow10 (- 7)
   \<and> price_per_tb_of (Num (7999 / 100)) (Num 4000) = Inr (Num (7999 / 100 * 1000 / 4000))
   \<and> dedupe_and_rank [listing_a, listing_b, listing_a_again] = Inr [listing_a, listing_b]
   \<and> set [listing_a, listing_b] \<subseteq> set [listing_a, listing_b, listing_a_again]"
  using price_per_tb_derived [of ascii_db item_3tb listing_3tb 4000 "7999 / 100" 199975 "- 7"
      "[listing_a, listing_b, listing_a_again]" "[listing_a, listing_b]"]
    item_3tb_emitted example_rank
  by (simp add: pow10_def)

text \<open>
  The claim C5 fails where the quotient has no finite decimal expansion: for 79.99 and 3000
  gigabytes \<open>parse_page\<close> stores the quotient rounded to 28 digits times 1000, which is not
  79.99 * 1000 / 3000.
\<close>

theorem price_per_tb_rounded:
  "parse_item ascii_db item_3tb = Emit listing_3tb
   \<and> price listing_3tb = Num (7999 / 100) \<and> size_gb listing_3tb = Num 3000
   \<and> price_per_tb listing_3tb = Num (2666333333333333333333333333 / 10 ^ 26)
   \<and> price_per_tb listing_3tb \<noteq> Num (7999 / 100 * 1000 / 3000)"
  using item_3tb_emitted by (simp add: listing_3tb_def)

section \<open>The capacity normalizers\<close>

lemma first_some_None: "(\<And>x. x \<in> set xs \<Longrightarrow> f x = None) \<Longrightarrow> first_some f xs = None"
  by (induction xs) auto

lemma down_from_Cons: "lo \<le> n \<Longrightarrow> down_from n lo = n # rev [lo..<n]"
  by (simp add: down_from_def)

lemma re_search_at_start: "m 0 = Some y \<Longrightarrow> re_search m s = Some y"
  by (simp add: re_search_def upt_conv_Cons del: upt_Suc)

lemma run_length_stop: "list_all P xs \<Longrightarrow> \<not> P y \<Longrightarrow> run_length P (xs @ y # ys) = length xs"
  by (simp add: run_length_def takeWhile_append2 list_all_iff)

lemma numeral_text_size_chars: "numeral_text N ip fp \<Longrightarrow> list_all is_size_char N \<and> N \<noteq> []"
  by (auto simp: numeral_text_def is_size_char_def list_all_iff)

lemma numeral_text_hd: "numeral_text N ip fp \<Longrightarrow> is_ascii_digit (hd N) \<and> N \<noteq> []"
  by (cases ip) (auto simp: numeral_text_def)

lemma digit_is_word: "is_ascii_digit c \<Longrightarrow> is_word U c"
  by (auto simp: is_word_def is_ascii_digit_def)

lemma size_match_numeral:
  assumes "numeral_text N ip fp" "u = 84 \<or> u = 71"
  shows "size_match_at U True (N @ [u, 66]) 0 = Some (N, u)"
proof -
  let ?s = "N @ [u, 66]"
  have N: "list_all is_size_char N" "N \<noteq> []" "is_ascii_digit (hd N)"
    using assms(1) numeral_text_size_chars numeral_text_hd by blast+
  have u: "\<not> is_size_char u" "is_unit_char u" "u \<noteq> 32"
    using assms(2) by (auto simp: is_size_char_def is_unit_char_def is_ascii_digit_def)
  have wb0: "word_boundary U ?s 0"
    using N(2,3) by (cases N) (auto simp: word_boundary_def digit_is_word)
  have run: "run_length is_size_char (drop 0 ?s) = length N"
    using N(1) u(1) by (simp add: run_length_stop)
  have len: "1 \<le> length N" using N(2) by (cases N) auto
  have wbe: "word_boundary U ?s (length N + 1 + 1)"
    by (simp add: word_boundary_def nth_append is_word_def)
  have inner: "first_some (\<lambda>b.
                     let q = length N + 1 + b in
                     if word_boundary U ?s q \<and> \<not> starts_with (str ''/s'') (drop q ?s)
                     then Some (take (length N) (drop 0 ?s), ?s ! length N) else None) [1]
       = Some (N, u)"
    using wbe by (simp add: starts_with_def str_def nth_append)
  show ?thesis
    unfolding size_match_at_def run
    using wb0 len u inner
    by (simp add: down_from_Cons nth_append is_b_char_def)
qed


lemma size_search_numeral:
  assumes "numeral_text N ip fp" "u = 84 \<or> u = 71"
  shows "size_search U (N @ [u, 66]) = Some (N, u)"
  using size_match_numeral [OF assms] by (simp add: size_search_def re_search_at_start)

lemma digits_val_snoc: "digits_val (ds @ [c]) = 10 * digits_val ds + (c - 48)"
  by (simp add: digits_val_def)

lemma digits_val_bound: "list_all is_ascii_digit ds \<Longrightarrow> digits_val ds < 10 ^ length ds"
proof (induction ds rule: rev_induct)
  case Nil
  then show ?case by (simp add: digits_val_def)
next
  case (snoc c ds)
  then have "digits_val ds < 10 ^ length ds" "c - 48 \<le> 9"
    by (auto simp: is_ascii_digit_def)
  then have "10 * digits_val ds + (c - 48) < 10 * 10 ^ length ds"
    by linarith
  then show ?case by (simp add: digits_val_snoc)
qed

lemma takeWhile_all: "list_all P xs \<Longrightarrow> takeWhile P xs = xs"
  by (simp add: list_all_iff)

lemma dropWhile_all: "list_all P xs \<Longrightarrow> dropWhile P xs = []"
  by (simp add: list_all_iff)

lemma parse_number_numeral:
  assumes "numeral_text N ip fp"
  shows "parse_number N = Some (digits_val (ip @ fp), - int (length fp))"
proof -
  from assms have ip: "list_all is_ascii_digit ip" "ip \<noteq> []" and fp: "list_all is_ascii_digit fp"
    by (simp_all add: numeral_text_def)
  from assms consider "N = ip" "fp = []" | "N = ip @ 46 # fp"
    by (auto simp: numeral_text_def)
  then show ?thesis
  proof cases
    case 1
    then show ?thesis
      using ip by (simp add: parse_number_def takeWhile_all dropWhile_all parse_exponent_def)
  next
    case 2
    have "takeWhile is_ascii_digit N = ip" "dropWhile is_ascii_digit N = 46 # fp"
      using ip(1) unfolding 2
      by (simp_all add: takeWhile_append2 dropWhile_append2 list_all_iff is_ascii_digit_def)
    then show ?thesis
      using ip fp by (simp add: parse_number_def takeWhile_all dropWhile_all parse_exponent_def)
  qed
qed

lemma size_char_plain:
  "is_size_char c \<Longrightarrow> \<not> is_space c \<and> 0 < c \<and> c \<le> 127 \<and> c \<noteq> 95 \<and> ascii_lower c = c"
  by (auto simp: is_size_char_def is_ascii_digit_def is_space_def ascii_lower_def)

lemma numeral_plain:
  assumes "numeral_text N ip fp"
  shows "list_all (\<lambda>c. \<not> is_space c) N" "list_all (\<lambda>c. 0 < c \<and> c \<le> 127 \<and> c \<noteq> 95) N"
    "map ascii_lower N = N"
proof -
  have N: "\<forall>c\<in>set N. is_size_char c"
    using numeral_text_size_chars [OF assms] by (simp add: list_all_iff)
  show "list_all (\<lambda>c. \<not> is_space c) N"
    using N size_char_plain by (simp add: list_all_iff)
  show "list_all (\<lambda>c. 0 < c \<and> c \<le> 127 \<and> c \<noteq> 95) N"
    using N size_char_plain by (simp add: list_all_iff)
  show "map ascii_lower N = N"
    using N size_char_plain by (intro map_idI) simp
qed

lemma decimal_ascii_plain: "list_all (\<lambda>c. 0 < c \<and> c \<le> 127 \<and> c \<noteq> 95) s \<Longrightarrow> decimal_ascii U s = Some s"
  by (induction s) auto

lemma py_decimal_numeral:
  assumes "numeral_text N ip fp"
  shows "py_decimal U N = Inr (Num (numeral_value ip fp))"
proof -
  let ?c = "digits_val (ip @ fp)"
  have hd: "is_ascii_digit (hd N)" "N \<noteq> []"
    using assms numeral_text_hd by blast+
  then have sign: "split_sign N = (False, N)"
    by (cases N) (auto simp: split_sign_def is_ascii_digit_def)
  have not_inf: "N \<noteq> str ''inf''" "N \<noteq> str ''infinity''" "\<not> starts_with (str ''nan'') N"
    "\<not> starts_with (str ''snan'') N"
    using hd by (cases N; auto simp: str_def starts_with_def is_ascii_digit_def)+
  have len: "length ip + length fp \<le> 28" and dig: "list_all is_ascii_digit (ip @ fp)"
    using assms by (simp_all add: numeral_text_def)
  have "?c < 10 ^ length (ip @ fp)"
    using dig by (rule digits_val_bound)
  also have "\<dots> \<le> 10 ^ 28"
    using len by (intro power_increasing) simp_all
  finally have c: "?c < 10 ^ 28" .
  then have "ndigits ?c \<le> 28"
    by (intro ndigits_le) simp_all
  then have exact: "exact_in_max_context ?c (- int (length fp))"
    using len by (simp add: exact_in_max_context_def max_etiny_def max_emax_def)
  have val: "of_int (signed False ?c) * pow10 (- int (length fp)) = numeral_value ip fp"
    by (simp add: signed_def numeral_value_def pow10_def)
  show ?thesis
    using numeral_plain [OF assms] sign not_inf exact val
    by (simp add: py_decimal_def py_strip_no_space decimal_ascii_plain decimal_of_ascii_def
        parse_number_numeral [OF assms])
qed

lemma numeral_value_times_1000:
  assumes "numeral_text N ip fp"
  shows "ctx_round (numeral_value ip fp * 1000) = Inr (Num (numeral_value ip fp * 1000))"
proof -
  let ?c = "digits_val (ip @ fp)"
  have len: "length ip + length fp \<le> 28" and dig: "list_all is_ascii_digit (ip @ fp)"
    using assms by (simp_all add: numeral_text_def)
  have "?c < 10 ^ length (ip @ fp)"
    using dig by (rule digits_val_bound)
  also have "\<dots> \<le> 10 ^ 28"
    using len by (intro power_increasing) simp_all
  finally have c: "\<bar>int ?c\<bar> < 10 ^ 28"
    by (metis abs_of_nat of_nat_less_iff of_nat_numeral of_nat_power)
  have "pow10 3 = 1000" by (simp add: pow10_def)
  then have "numeral_value ip fp * 1000 = of_int (int ?c) * pow10 (3 - int (length fp))"
    using pow10_add [of 3 "- int (length fp)"] by (simp add: numeral_value_def pow10_def)
  moreover have "ctx_round (of_int (int ?c) * pow10 (3 - int (length fp)))
      = Inr (Num (of_int (int ?c) * pow10 (3 - int (length fp))))"
    using c len by (intro ctx_round_exact) (simp_all add: etiny_def prec_def emax_def)
  ultimately show ?thesis by simp
qed

lemma parse_size_numeral:
  assumes "numeral_text N ip fp"
  shows "parse_size U (N @ str ''TB'') = Inr (Some (N @ str ''TB'', Num (numeral_value ip fp * 1000)))"
    and "parse_size U (N @ str ''GB'') = Inr (Some (N @ str ''GB'', Num (numeral_value ip fp)))"
proof -
  have tb: "str ''TB'' = [84, 66]" and gb: "str ''GB'' = [71, 66]"
    by (simp_all add: str_def)
  show "parse_size U (N @ str ''TB'') = Inr (Some (N @ str ''TB'', Num (numeral_value ip fp * 1000)))"
    unfolding tb
    by (simp add: parse_size_def size_search_numeral [OF assms] py_decimal_numeral [OF assms]
        numeral_value_times_1000 [OF assms])
  show "parse_size U (N @ str ''GB'') = Inr (Some (N @ str ''GB'', Num (numeral_value ip fp)))"
    unfolding gb
    by (simp add: parse_size_def size_search_numeral [OF assms] py_decimal_numeral [OF assms])
qed


lemma ascii_digit_decimal: "is_ascii_digit c \<Longrightarrow> is_decimal U c \<and> c < 127"
  by (simp add: is_decimal_def decimal_digit_def is_ascii_digit_def)

lemma to_ascii_numeric_ascii: "list_all (\<lambda>c. c < 127) s \<Longrightarrow> to_ascii_numeric U s = Some s"
  by (induction s) auto

lemma py_int_ascii_digits:
  assumes "list_all is_ascii_digit D" "1 \<le> length D" "length D \<le> 4300"
  shows "py_int U D = Inr (int (digits_val D))"
proof -
  have "list_all (\<lambda>c. c < 127) D"
    using assms(1) ascii_digit_decimal by (simp add: list_all_iff)
  then have a: "to_ascii_numeric U D = Some D"
    by (rule to_ascii_numeric_ascii)
  have ne: "D \<noteq> []" using assms(2) by auto
  then have "is_ascii_digit (hd D)"
    using assms(1) by (cases D) auto
  then have sign: "split_sign D = (False, D)"
    using ne by (cases D) (auto simp: split_sign_def is_ascii_digit_def)
  have "underscores_ok 0 D"
    using assms(1) by (simp add: underscores_ok_digits)
  then show ?thesis
    using a assms ne sign
    by (simp add: py_int_def filter_digits c_strip_digits signed_def)
qed

lemma capacity_match_digits:
  assumes "list_all is_ascii_digit D" "lo \<le> length D" "length D \<le> hi"
    and "short = a # b # []" "\<not> is_decimal U a" "\<not> is_space a" "is_word U b"
  shows "capacity_match_at U lo hi short long (D @ short) 0 = Some D"
proof -
  let ?s = "D @ short"
  have dec: "list_all (is_decimal U) D"
    using assms(1) ascii_digit_decimal by (simp add: list_all_iff)
  have run: "run_length (is_decimal U) ?s = length D"
    using dec assms(4,5) by (simp add: run_length_stop)
  have sp: "run_length is_space short = 0"
    using assms(4,6) by (simp add: run_length_def)
  have wb: "word_boundary U ?s (length D + length short)"
    using assms(4,7) by (simp add: word_boundary_def nth_append)
  show ?thesis
    using assms(2,3) wb
    by (simp add: capacity_match_at_def run sp down_from_Cons min_absorb2 starts_with_def)
qed

lemma starts_with_hd: "starts_with (c # p) t \<Longrightarrow> c \<in> set t"
  by (cases t) (auto simp: starts_with_def)

lemma no_unit_no_match:
  assumes "c \<notin> set s" "short = c # p" "long = c # p'"
  shows "re_search (capacity_match_at U lo hi short long s) s = None"
proof -
  have "\<not> starts_with short (drop i s)" "\<not> starts_with long (drop i s)" for i
    using assms starts_with_hd [of c _ "drop i s"] by (auto dest: in_set_dropD)
  then have "capacity_match_at U lo hi short long s i = None" for i
    unfolding capacity_match_at_def by (intro first_some_None) (simp add: Let_def)
  then show ?thesis
    unfolding re_search_def by (intro first_some_None) simp
qed

lemma py_lower_ascii: "list_all (\<lambda>c. c < 128) s \<Longrightarrow> py_lower U s = map ascii_lower s"
  by (simp add: py_lower_def)

lemma digits_lower:
  assumes "list_all is_ascii_digit D"
  shows "list_all (\<lambda>c. c < 128) D" "map ascii_lower D = D" "116 \<notin> set D"
  using assms by (auto simp: list_all_iff is_ascii_digit_def ascii_lower_def intro!: map_idI)

lemma parse_capacity_tb_terabytes:
  assumes "digits_text 1 3 D"
  shows "parse_capacity_tb U (Some (D @ str ''TB'')) = Inr (Some (Terabytes (int (digits_val D))))"
proof -
  from assms have D: "list_all is_ascii_digit D" "1 \<le> length D" "length D \<le> 3"
    by (simp_all add: digits_text_def)
  have low: "py_lower U (D @ str ''TB'') = D @ str ''tb''"
    using digits_lower [OF D(1)] by (simp add: py_lower_ascii str_def ascii_lower_def)
  have "capacity_match_at U 1 3 (str ''tb'') (str ''terabyte'') (D @ str ''tb'') 0 = Some D"
    using D by (intro capacity_match_digits [where a = 116 and b = 98])
      (simp_all add: str_def is_decimal_def decimal_digit_def is_ascii_digit_def is_space_def is_word_def)
  then have "re_search (capacity_match_at U 1 3 (str ''tb'') (str ''terabyte'') (D @ str ''tb''))
      (D @ str ''tb'') = Some D"
    by (rule re_search_at_start)
  moreover have "py_int U D = Inr (int (digits_val D))"
    using D by (intro py_int_ascii_digits) simp_all
  ultimately show ?thesis
    using D(2) by (auto simp: parse_capacity_tb_def low Let_def)
qed

lemma parse_capacity_tb_gigabytes:
  assumes "digits_text 3 5 D"
  shows "parse_capacity_tb U (Some (D @ str ''GB'')) = Inr (Some (GigabytesRounded (int (digits_val D))))"
proof -
  from assms have D: "list_all is_ascii_digit D" "3 \<le> length D" "length D \<le> 5"
    by (simp_all add: digits_text_def)
  have low: "py_lower U (D @ str ''GB'') = D @ str ''gb''"
    using digits_lower [OF D(1)] by (simp add: py_lower_ascii str_def ascii_lower_def)
  have "116 \<notin> set (D @ str ''gb'')"
    using digits_lower(3) [OF D(1)] by (simp add: str_def)
  then have tb: "re_search (capacity_match_at U 1 3 (str ''tb'') (str ''terabyte'') (D @ str ''gb''))
      (D @ str ''gb'') = None"
    by (rule no_unit_no_match) (simp_all add: str_def)
  have "capacity_match_at U 3 5 (str ''gb'') (str ''gigabyte'') (D @ str ''gb'') 0 = Some D"
    using D by (intro capacity_match_digits [where a = 103 and b = 98])
      (simp_all add: str_def is_decimal_def decimal_digit_def is_ascii_digit_def is_space_def is_word_def)
  then have gb: "re_search (capacity_match_at U 3 5 (str ''gb'') (str ''gigabyte'') (D @ str ''gb''))
      (D @ str ''gb'') = Some D"
    by (rule re_search_at_start)
  have "py_int U D = Inr (int (digits_val D))"
    using D by (intro py_int_ascii_digits) simp_all
  then show ?thesis
    using D(2) tb gb by (auto simp: parse_capacity_tb_def low Let_def)
qed

lemmas capacity_defs = parse_capacity_tb_def capacity_match_at_def py_lower_def py_int_def
  is_decimal_def decimal_digit_def

lemma crawl_transfer_rate: "parse_size U (str ''6Gb/s'') = Inr None"
  by (simp add: parse_size_def char_defs regex_defs starts_with_def upt_rec)

lemma hdd_transfer_rate: "parse_capacity_tb U (Some (str ''6Gb/s'')) = Inr None"
  by (simp add: capacity_defs char_defs regex_defs starts_with_def upt_rec)

lemma hdd_small_gigabytes: "parse_capacity_tb U (Some (str ''64GB'')) = Inr None"
  by (simp add: capacity_defs char_defs regex_defs starts_with_def upt_rec)

lemma hdd_fraction: "parse_capacity_tb U (Some (str ''1.92TB'')) = Inr (Some (Terabytes 92))"
  by (simp add: capacity_defs char_defs regex_defs number_defs starts_with_def upt_rec
      to_ascii_numeric.simps)

text \<open>
  Claim C1, as it holds. In crawl.py a title \<open>N TB\<close> or \<open>N GB\<close> (written without the space),
  with \<open>N\<close> a decimal numeral of at most 28 digits that starts with a digit, gives \<open>size_gb\<close>
  the value of \<open>N\<close> times 1000, or the value of \<open>N\<close>; \<open>6Gb/s\<close> matches neither pattern and
  the item is skipped. \<open>parse_capacity_tb\<close> of hdd_price_scraper.py returns terabytes and reads
  whole numbers: the \<open>int\<close> of one to three digits before \<open>TB\<close>, and for three to five
  digits \<open>n\<close> before \<open>GB\<close> the float \<open>round(n / 1000.0, 2)\<close>; \<open>6Gb/s\<close> gives \<open>None\<close>.
\<close>

theorem capacity_normalizers:
  "(numeral_text N ip fp \<longrightarrow>
      parse_size U (N @ str ''TB'') = Inr (Some (N @ str ''TB'', Num (numeral_value ip fp * 1000)))
      \<and> parse_size U (N @ str ''GB'') = Inr (Some (N @ str ''GB'', Num (numeral_value ip fp))))
   \<and> parse_size U (str ''6Gb/s'') = Inr None
   \<and> (digits_text 1 3 D \<longrightarrow>
        parse_capacity_tb U (Some (D @ str ''TB'')) = Inr (Some (Terabytes (int (digits_val D)))))
   \<and> (digits_text 3 5 G \<longrightarrow>
        parse_capacity_tb U (Some (G @ str ''GB'')) = Inr (Some (GigabytesRounded (int (digits_val G)))))
   \<and> parse_capacity_tb U (Some (str ''6Gb/s'')) = Inr None"
  using parse_size_numeral parse_capacity_tb_terabytes parse_capacity_tb_gigabytes
    crawl_transfer_rate hdd_transfer_rate
  by blast

theorem capacity_normalizers_witness:
  "numeral_text (str ''1.92'') (str ''1'') (str ''92'')
   \<and> parse_size ascii_db (str ''1.92TB'') = Inr (Some (str ''1.92TB'', Num 1920))
   \<and> parse_size ascii_db (str ''1.92GB'') = Inr (Some (str ''1.92GB'', Num 1.92))
   \<and> digits_text 1 3 (str ''4'')
   \<and> parse_capacity_tb ascii_db (Some (str ''4TB'')) = Inr (Some (Terabytes 4))
   \<and> digits_text 3 5 (str ''500'')
   \<and> parse_capacity_tb ascii_db (Some (str ''500GB'')) = Inr (Some (GigabytesRounded 500))"
  using capacity_normalizers [of "str ''1.92''" "str ''1''" "str ''92''" ascii_db "str ''4''" "str ''500''"]
  by (simp add: numeral_text_def numeral_value_def digits_text_def digits_val_def str_def
      is_ascii_digit_def)

text \<open>
  The claim C1 fails for \<open>parse_capacity_tb\<close>: fewer than three digits before \<open>GB\<close> are no
  capacity, and of \<open>1.92TB\<close> only the digits behind the point are read.
\<close>

theorem capacity_tb_whole_numbers:
  "parse_capacity_tb ascii_db (Some (str ''64GB'')) = Inr None
   \<and> parse_capacity_tb ascii_db (Some (str ''1.92TB'')) = Inr (Some (Terabytes 92))"
  using hdd_small_gigabytes hdd_fraction by blast

end
